theory Spec2Isabelle
  imports Main "HOL-Library.Word"
begin

section \<open>Risk gate test driver (sim/sim_risk.cpp)\<close>

subsection \<open>Enumerations and their wire codes\<close>

datatype RiskReject =
    RISK_OK
  | RISK_RATE_LIMITED
  | RISK_POSITION_LIMIT
  | RISK_NOTIONAL_LIMIT
  | RISK_ORDER_SIZE
  | RISK_KILL_SWITCH

datatype OrderSide = SIDE_BUY | SIDE_SELL

datatype OrderType = ORDER_NEW | ORDER_CANCEL | ORDER_MODIFY | ORDER_HEARTBEAT

fun reject_code :: "RiskReject \<Rightarrow> 8 word" where
  "reject_code RISK_OK = 0"
| "reject_code RISK_RATE_LIMITED = 1"
| "reject_code RISK_POSITION_LIMIT = 2"
| "reject_code RISK_NOTIONAL_LIMIT = 3"
| "reject_code RISK_ORDER_SIZE = 4"
| "reject_code RISK_KILL_SWITCH = 5"

fun side_code :: "OrderSide \<Rightarrow> 8 word" where
  "side_code SIDE_BUY = 1"
| "side_code SIDE_SELL = 2"

fun type_code :: "OrderType \<Rightarrow> 8 word" where
  "type_code ORDER_NEW = 1"
| "type_code ORDER_CANCEL = 2"
| "type_code ORDER_MODIFY = 3"
| "type_code ORDER_HEARTBEAT = 15"

subsection \<open>The signals of the risk gate model object\<close>

text \<open>
  The generated header of the risk gate is not part of the sources; the pins are the ones
  the driver assigns and reads. One-bit pins are booleans, the others are as wide as the
  values the driver stores in them. Pins that the pipeline driver also has carry the
  prefix \<open>g_\<close>.
\<close>

record risk_in =
  g_clk :: bool
  g_rst_n :: bool
  cfg_rate_max_tokens :: "64 word"
  cfg_rate_refill_rate :: "64 word"
  cfg_rate_refill_period :: "64 word"
  cfg_rate_enabled :: bool
  cfg_pos_max_long :: "64 word"
  cfg_pos_max_short :: "64 word"
  cfg_pos_max_notional :: "64 word"
  cfg_pos_max_order_qty :: "64 word"
  cfg_pos_enabled :: bool
  cfg_kill_armed :: bool
  cfg_kill_auto_enabled :: bool
  cfg_kill_loss_threshold :: "64 word"
  cmd_kill_trigger :: bool
  cmd_kill_reset :: bool
  g_in_valid :: bool
  g_in_data :: "64 word"
  in_order_id :: "64 word"
  in_symbol_id :: "64 word"
  in_side :: "8 word"
  in_order_type :: "8 word"
  in_quantity :: "64 word"
  in_price :: "64 word"
  in_notional :: "64 word"
  g_out_ready :: bool
  fill_valid :: bool
  fill_side :: "8 word"
  fill_qty :: "64 word"
  fill_notional :: "64 word"
  current_pnl :: "64 word"
  pnl_is_loss :: bool

record risk_out =
  out_rejected :: bool
  out_reject_reason :: "8 word"
  stat_total :: "64 word"
  stat_passed :: "64 word"

text \<open>
  The device under test is opaque: its \<open>eval()\<close> is a parameter \<open>ev\<close> that maps the
  input pins and the internal state \<open>'c\<close> to the next internal state and the output pins.
\<close>

record 'c risk_dut =
  rin :: risk_in
  rout :: risk_out
  rcore :: 'c

type_synonym 'c risk_eval = "risk_in \<Rightarrow> 'c \<Rightarrow> 'c \<times> risk_out"

definition risk_eval_dut :: "'c risk_eval \<Rightarrow> 'c risk_dut \<Rightarrow> 'c risk_dut" where
  "risk_eval_dut ev d = (case ev (rin d) (rcore d) of (c, out) \<Rightarrow> d\<lparr>rout := out, rcore := c\<rparr>)"

subsection \<open>RiskGateTestbench\<close>

text \<open>
  The members of the class, and the function-static \<open>order_id\<close> of \<open>send_order\<close>, which
  lives as long as the process.
\<close>

record 'c risk_tb =
  gdut :: "'c risk_dut"
  g_sim_time :: "64 word"
  cycles :: "64 word"
  orders_sent :: "64 word"
  orders_passed :: "64 word"
  orders_rejected :: "64 word"
  order_id :: "64 word"

definition new_risk_tb :: "'c risk_dut \<Rightarrow> 'c risk_tb" where
  "new_risk_tb d = \<lparr>gdut = d, g_sim_time = 0, cycles = 0, orders_sent = 0, orders_passed = 0,
     orders_rejected = 0, order_id = 0\<rparr>"

definition set_rin :: "(risk_in \<Rightarrow> risk_in) \<Rightarrow> 'c risk_tb \<Rightarrow> 'c risk_tb" where
  "set_rin f tb = tb\<lparr>gdut := (gdut tb)\<lparr>rin := f (rin (gdut tb))\<rparr>\<rparr>"

definition risk_tick :: "'c risk_eval \<Rightarrow> 'c risk_tb \<Rightarrow> 'c risk_tb" where
  "risk_tick ev tb =
     (let tb1 = set_rin (\<lambda>p. p\<lparr>g_clk := True\<rparr>) tb;
          tb2 = tb1\<lparr>gdut := risk_eval_dut ev (gdut tb1)\<rparr>;
          tb3 = tb2\<lparr>g_sim_time := g_sim_time tb2 + 5\<rparr>;
          tb4 = set_rin (\<lambda>p. p\<lparr>g_clk := False\<rparr>) tb3;
          tb5 = tb4\<lparr>gdut := risk_eval_dut ev (gdut tb4)\<rparr>;
          tb6 = tb5\<lparr>g_sim_time := g_sim_time tb5 + 5\<rparr>
      in tb6\<lparr>cycles := cycles tb6 + 1\<rparr>)"

definition risk_reset_pins :: "risk_in \<Rightarrow> risk_in" where
  "risk_reset_pins p = p\<lparr>g_rst_n := False,
     cfg_rate_max_tokens := 100, cfg_rate_refill_rate := 10, cfg_rate_refill_period := 1000,
     cfg_rate_enabled := False,
     cfg_pos_max_long := 10000, cfg_pos_max_short := 10000, cfg_pos_max_notional := 1000000,
     cfg_pos_max_order_qty := 1000, cfg_pos_enabled := False,
     cfg_kill_armed := False, cfg_kill_auto_enabled := False, cfg_kill_loss_threshold := 100000,
     cmd_kill_trigger := False, cmd_kill_reset := False,
     g_in_valid := False, g_out_ready := True, fill_valid := False,
     current_pnl := 0, pnl_is_loss := False\<rparr>"

definition risk_reset :: "'c risk_eval \<Rightarrow> 'c risk_tb \<Rightarrow> 'c risk_tb" where
  "risk_reset ev tb =
     (let tb1 = set_rin risk_reset_pins tb;
          tb2 = ((risk_tick ev) ^^ 10) tb1;
          tb3 = set_rin (\<lambda>p. p\<lparr>g_rst_n := True\<rparr>) tb2
      in risk_tick ev tb3)"

text \<open>\<open>send_order\<close> returns whether the order passed, together with the new state.\<close>

definition send_order ::
  "'c risk_eval \<Rightarrow> OrderSide \<Rightarrow> OrderType \<Rightarrow> 64 word \<Rightarrow> 64 word \<Rightarrow> 64 word \<Rightarrow> 'c risk_tb
     \<Rightarrow> bool \<times> 'c risk_tb" where
  "send_order ev side type qty price notional tb =
     (let oid = order_id tb;
          tb1 = set_rin (\<lambda>p. p\<lparr>g_in_valid := True, g_in_data := oid, in_order_id := oid,
                   in_symbol_id := 1, in_side := side_code side, in_order_type := type_code type,
                   in_quantity := qty, in_price := price, in_notional := notional\<rparr>)
                  (tb\<lparr>order_id := oid + 1\<rparr>);
          tb2 = risk_tick ev tb1;
          passed = (\<not> out_rejected (rout (gdut tb2)));
          tb3 = tb2\<lparr>orders_sent := orders_sent tb2 + 1\<rparr>;
          tb4 = (if passed then tb3\<lparr>orders_passed := orders_passed tb3 + 1\<rparr>
                 else tb3\<lparr>orders_rejected := orders_rejected tb3 + 1\<rparr>);
          tb5 = set_rin (\<lambda>p. p\<lparr>g_in_valid := False\<rparr>) tb4
      in (passed, tb5))"

definition send_fill ::
  "'c risk_eval \<Rightarrow> OrderSide \<Rightarrow> 64 word \<Rightarrow> 64 word \<Rightarrow> 'c risk_tb \<Rightarrow> 'c risk_tb" where
  "send_fill ev side qty notional tb =
     (let tb1 = set_rin (\<lambda>p. p\<lparr>fill_valid := True, fill_side := side_code side,
                   fill_qty := qty, fill_notional := notional\<rparr>) tb;
          tb2 = risk_tick ev tb1
      in set_rin (\<lambda>p. p\<lparr>fill_valid := False\<rparr>) tb2)"

definition trigger_kill :: "'c risk_eval \<Rightarrow> 'c risk_tb \<Rightarrow> 'c risk_tb" where
  "trigger_kill ev tb =
     set_rin (\<lambda>p. p\<lparr>cmd_kill_trigger := False\<rparr>)
       (risk_tick ev (set_rin (\<lambda>p. p\<lparr>cmd_kill_trigger := True\<rparr>) tb))"

definition reset_kill :: "'c risk_eval \<Rightarrow> 'c risk_tb \<Rightarrow> 'c risk_tb" where
  "reset_kill ev tb =
     set_rin (\<lambda>p. p\<lparr>cmd_kill_reset := False\<rparr>)
       (risk_tick ev (set_rin (\<lambda>p. p\<lparr>cmd_kill_reset := True\<rparr>) tb))"

text \<open>The three assignments at the head of the stress loop in \<open>test_stress\<close>.\<close>

definition zero_order_stats :: "'c risk_tb \<Rightarrow> 'c risk_tb" where
  "zero_order_stats tb = tb\<lparr>orders_sent := 0, orders_passed := 0, orders_rejected := 0\<rparr>"

text \<open>
  The operations through which the scenarios of the driver change the testbench: every
  scenario is a sequence of these and of assignments to configuration pins.
\<close>

datatype risk_op =
    OpTick
  | OpReset
  | OpSendOrder OrderSide OrderType "64 word" "64 word" "64 word"
  | OpSendFill OrderSide "64 word" "64 word"
  | OpTriggerKill
  | OpResetKill
  | OpZeroStats
  | OpSetPins "risk_in \<Rightarrow> risk_in"

fun risk_apply :: "'c risk_eval \<Rightarrow> 'c risk_tb \<Rightarrow> risk_op \<Rightarrow> 'c risk_tb" where
  "risk_apply ev tb OpTick = risk_tick ev tb"
| "risk_apply ev tb OpReset = risk_reset ev tb"
| "risk_apply ev tb (OpSendOrder s t q p n) = snd (send_order ev s t q p n tb)"
| "risk_apply ev tb (OpSendFill s q n) = send_fill ev s q n tb"
| "risk_apply ev tb OpTriggerKill = trigger_kill ev tb"
| "risk_apply ev tb OpResetKill = reset_kill ev tb"
| "risk_apply ev tb OpZeroStats = zero_order_stats tb"
| "risk_apply ev tb (OpSetPins f) = set_rin f tb"

definition risk_run :: "'c risk_eval \<Rightarrow> 'c risk_tb \<Rightarrow> risk_op list \<Rightarrow> 'c risk_tb" where
  "risk_run ev tb ops = foldl (risk_apply ev) tb ops"

text \<open>The balance of the three order counters.\<close>

definition counters_balanced :: "'c risk_tb \<Rightarrow> bool" where
  "counters_balanced tb = (orders_sent tb = orders_passed tb + orders_rejected tb)"

section \<open>The risk policy contract\<close>

text \<open>
  The synthesizable risk gate is not part of the sources: the driver only sets its pins and
  reads its verdict. The definitions of this section are therefore modelled from the
  specification's risk policy contract (decision order, side effects of admission,
  kill switch latch, token bucket).
\<close>

text \<open>
  Modelled from the spec: an order as the missing gate sees it (data model, Order).
\<close>

record order =
  o_order_id :: nat
  o_symbol_id :: nat
  o_side :: OrderSide
  o_type :: OrderType
  o_quantity :: nat
  o_price :: nat
  o_notional :: nat

text \<open>
  Modelled from the spec: the configuration inputs of the missing gate (rate limiter,
  position limiter, kill switch).
\<close>

record gate_cfg =
  rate_enabled :: bool
  max_tokens :: nat
  refill_rate :: nat
  refill_period :: nat
  pos_enabled :: bool
  max_long :: nat
  max_short :: nat
  max_notional :: nat
  max_order_qty :: nat
  kill_armed :: bool
  auto_enabled :: bool
  loss_threshold :: nat

text \<open>
  Modelled from the spec: the state of the missing gate: token count and refill timer
  (RateLimiterState), net position and net notional (Position state), and the kill switch
  latch (KillSwitchState).
\<close>

record gate_state =
  tokens :: nat
  refill_timer :: nat
  position :: int
  notional_total :: int
  triggered :: bool

text \<open>
  Modelled from the spec: a quantity counted by side in the missing gate, buys up and sells
  down.
\<close>

definition signed_by :: "OrderSide \<Rightarrow> nat \<Rightarrow> int" where
  "signed_by s n = (case s of SIDE_BUY \<Rightarrow> int n | SIDE_SELL \<Rightarrow> - int n)"

text \<open>
  Modelled from the spec: the net position the missing gate would reach with the order
  (current plus or minus the quantity, by side).
\<close>

definition resulting_position :: "gate_state \<Rightarrow> order \<Rightarrow> int" where
  "resulting_position st ord = position st + signed_by (o_side ord) (o_quantity ord)"

text \<open>
  Modelled from the spec: the net notional the missing gate would reach with the order.
\<close>

definition resulting_notional :: "gate_state \<Rightarrow> order \<Rightarrow> int" where
  "resulting_notional st ord = notional_total st + signed_by (o_side ord) (o_notional ord)"

text \<open>
  Modelled from the spec: the kill switch of the missing gate rejects when it is armed and
  triggered.
\<close>

definition kill_fails :: "gate_cfg \<Rightarrow> gate_state \<Rightarrow> bool" where
  "kill_fails cfg st = (kill_armed cfg \<and> triggered st)"

text \<open>
  Modelled from the spec: the rate limiter of the missing gate rejects an order that is not
  a heartbeat when it is enabled and no token is available.
\<close>

definition rate_fails :: "gate_cfg \<Rightarrow> gate_state \<Rightarrow> order \<Rightarrow> bool" where
  "rate_fails cfg st ord = (rate_enabled cfg \<and> o_type ord \<noteq> ORDER_HEARTBEAT \<and> tokens st = 0)"

text \<open>
  Modelled from the spec: the order-size limit of the missing gate applies to \<open>NEW\<close>
  orders when the position limiter is enabled.
\<close>

definition size_fails :: "gate_cfg \<Rightarrow> order \<Rightarrow> bool" where
  "size_fails cfg ord = (pos_enabled cfg \<and> o_type ord = ORDER_NEW \<and> o_quantity ord > max_order_qty cfg)"

text \<open>
  Modelled from the spec: the position and notional limits of the missing gate apply to
  \<open>NEW\<close> orders when the position limiter is enabled.
\<close>

definition position_fails :: "gate_cfg \<Rightarrow> gate_state \<Rightarrow> order \<Rightarrow> bool" where
  "position_fails cfg st ord =
     (pos_enabled cfg \<and> o_type ord = ORDER_NEW \<and>
      (resulting_position st ord > int (max_long cfg) \<or>
       - resulting_position st ord > int (max_short cfg) \<or>
       \<bar>resulting_notional st ord\<bar> > int (max_notional cfg)))"

text \<open>
  Modelled from the spec: the decision order of the gate (the arbiter of the missing RTL).
  The first matching rejection gives the reason: kill switch, then rate limit, then
  order size, then position or notional limit; otherwise the order is admitted.
\<close>

definition gate_decide :: "gate_cfg \<Rightarrow> gate_state \<Rightarrow> order \<Rightarrow> RiskReject" where
  "gate_decide cfg st ord =
     (if kill_armed cfg \<and> triggered st then RISK_KILL_SWITCH
      else if rate_enabled cfg \<and> o_type ord \<noteq> ORDER_HEARTBEAT \<and> tokens st = 0
        then RISK_RATE_LIMITED
      else if pos_enabled cfg \<and> o_type ord = ORDER_NEW then
        (if o_quantity ord > max_order_qty cfg then RISK_ORDER_SIZE
         else if resulting_position st ord > int (max_long cfg) \<or>
                 - resulting_position st ord > int (max_short cfg) \<or>
                 \<bar>resulting_notional st ord\<bar> > int (max_notional cfg)
           then RISK_POSITION_LIMIT
         else RISK_OK)
      else RISK_OK)"

text \<open>
  Modelled from the spec: the side effect of admission in the missing gate. An admitted
  order that is not a heartbeat consumes one token when rate limiting is enabled; position
  and notional are not touched by admission.
\<close>

definition gate_submit :: "gate_cfg \<Rightarrow> gate_state \<Rightarrow> order \<Rightarrow> RiskReject \<times> gate_state" where
  "gate_submit cfg st ord =
     (let r = gate_decide cfg st ord in
      (r, if r = RISK_OK \<and> rate_enabled cfg \<and> o_type ord \<noteq> ORDER_HEARTBEAT
          then st\<lparr>tokens := tokens st - 1\<rparr> else st))"

text \<open>
  Modelled from the spec: the explicit trigger command of the missing gate sets the latch
  of the kill switch.
\<close>

definition kill_trigger :: "gate_state \<Rightarrow> gate_state" where
  "kill_trigger st = st\<lparr>triggered := True\<rparr>"

text \<open>
  Modelled from the spec: the explicit reset command of the missing gate, the only way to
  clear the latch.
\<close>

definition kill_reset :: "gate_state \<Rightarrow> gate_state" where
  "kill_reset st = st\<lparr>triggered := False\<rparr>"

text \<open>
  Modelled from the spec: the automatic trigger of the missing gate, on a loss above the
  threshold when it is enabled.
\<close>

definition auto_kill :: "gate_cfg \<Rightarrow> bool \<Rightarrow> nat \<Rightarrow> gate_state \<Rightarrow> gate_state" where
  "auto_kill cfg is_loss pnl st =
     (if auto_enabled cfg \<and> is_loss \<and> pnl > loss_threshold cfg
      then st\<lparr>triggered := True\<rparr> else st)"

text \<open>
  Modelled from the spec: fills are the only mutator of the position and notional totals
  of the missing gate.
\<close>

definition gate_fill :: "OrderSide \<Rightarrow> nat \<Rightarrow> nat \<Rightarrow> gate_state \<Rightarrow> gate_state" where
  "gate_fill s qty ntl st =
     st\<lparr>position := position st + signed_by s qty,
        notional_total := notional_total st + signed_by s ntl\<rparr>"



subsection \<open>Configurations and orders of the driver's scenarios\<close>

text \<open>
  The configurations that \<open>test_reject_priority\<close>, \<open>test_heartbeat_bypass\<close>,
  \<open>test_cancel_passes\<close> and \<open>test_rate_limit_basic\<close> put on the configuration pins
  (the other values are the defaults of \<open>reset\<close>), the orders they send, and gate states
  in which they send them.
\<close>

definition priority_cfg :: gate_cfg where
  "priority_cfg = \<lparr>rate_enabled = True, max_tokens = 0, refill_rate = 0, refill_period = 1000,
     pos_enabled = True, max_long = 0, max_short = 0, max_notional = 1000000, max_order_qty = 0,
     kill_armed = True, auto_enabled = False, loss_threshold = 100000\<rparr>"

definition buy_new_100 :: order where
  "buy_new_100 = \<lparr>o_order_id = 0, o_symbol_id = 1, o_side = SIDE_BUY, o_type = ORDER_NEW,
     o_quantity = 100, o_price = 100, o_notional = 10000\<rparr>"

definition killed_empty_state :: gate_state where
  "killed_empty_state = \<lparr>tokens = 0, refill_timer = 0, position = 0, notional_total = 0,
     triggered = True\<rparr>"

definition heartbeat_cfg :: gate_cfg where
  "heartbeat_cfg = \<lparr>rate_enabled = True, max_tokens = 0, refill_rate = 0, refill_period = 10000,
     pos_enabled = False, max_long = 10000, max_short = 10000, max_notional = 1000000,
     max_order_qty = 1000, kill_armed = False, auto_enabled = False, loss_threshold = 100000\<rparr>"

definition heartbeat_order :: order where
  "heartbeat_order = \<lparr>o_order_id = 1, o_symbol_id = 1, o_side = SIDE_BUY, o_type = ORDER_HEARTBEAT,
     o_quantity = 0, o_price = 0, o_notional = 0\<rparr>"

definition idle_empty_state :: gate_state where
  "idle_empty_state = \<lparr>tokens = 0, refill_timer = 0, position = 0, notional_total = 0,
     triggered = False\<rparr>"

definition cancel_cfg :: gate_cfg where
  "cancel_cfg = \<lparr>rate_enabled = False, max_tokens = 100, refill_rate = 10, refill_period = 1000,
     pos_enabled = True, max_long = 1000, max_short = 1000, max_notional = 1000000,
     max_order_qty = 100, kill_armed = False, auto_enabled = False, loss_threshold = 100000\<rparr>"

definition full_long_state :: gate_state where
  "full_long_state = \<lparr>tokens = 100, refill_timer = 0, position = 1000, notional_total = 100000,
     triggered = False\<rparr>"

definition cancel_500 :: order where
  "cancel_500 = \<lparr>o_order_id = 1, o_symbol_id = 1, o_side = SIDE_BUY, o_type = ORDER_CANCEL,
     o_quantity = 500, o_price = 100, o_notional = 50000\<rparr>"


section \<open>Sentinel shell simulation driver (sim/sim_main.cpp)\<close>

subsection \<open>Trace records\<close>

text \<open>The packed 32-byte record of the driver.\<close>

record TraceRecord =
  tx_id :: "64 word"
  t_ingress :: "64 word"
  t_egress :: "64 word"
  flags :: "16 word"
  opcode :: "16 word"
  meta :: "32 word"

text \<open>
  The bytes of a record as they lie in memory (packed, fields in declaration order, least
  significant byte first), which is what \<open>memcmp\<close> and \<open>write_traces\<close> read.
\<close>

definition le_bytes :: "'a::len word \<Rightarrow> 8 word list" where
  "le_bytes w = map (\<lambda>i. ucast (drop_bit (8 * i) w)) [0..<LENGTH('a) div 8]"

definition record_bytes :: "TraceRecord \<Rightarrow> 8 word list" where
  "record_bytes r = le_bytes (tx_id r) @ le_bytes (t_ingress r) @ le_bytes (t_egress r) @
     le_bytes (flags r) @ le_bytes (opcode r) @ le_bytes (meta r)"

definition memcmp_equal :: "TraceRecord \<Rightarrow> TraceRecord \<Rightarrow> bool" where
  "memcmp_equal a b = (record_bytes a = record_bytes b)"

subsection \<open>The signals of the shell model object\<close>

text \<open>
  The generated header of the shell is not part of the sources; the pins are the ones the
  driver assigns and reads. The trace pins are as wide as the record fields they are
  copied into, the counters as wide as the driver prints them.
\<close>

record pins_in =
  clk :: bool
  rst_n :: bool
  in_valid :: bool
  in_data :: "64 word"
  in_opcode :: "16 word"
  in_meta :: "32 word"
  out_ready :: bool
  trace_ready :: bool

record pins_out =
  in_ready :: bool
  out_valid :: bool
  trace_valid :: bool
  trace_tx_id :: "64 word"
  trace_t_ingress :: "64 word"
  trace_t_egress :: "64 word"
  trace_flags :: "16 word"
  trace_opcode :: "16 word"
  trace_meta :: "32 word"
  trace_drop_count :: "64 word"
  in_backpressure_cycles :: "64 word"
  out_backpressure_cycles :: "64 word"
  inflight_underflow_count :: "32 word"
  trace_overflow_seen :: bool

text \<open>
  The device under test is opaque. Its \<open>eval()\<close> is a parameter \<open>ev\<close>: from the simulated
  time (which the model can read through \<open>sc_time_stamp\<close>), the input pins and the internal
  state \<open>'c\<close> it gives the next internal state and the output pins.
\<close>

record 'c shell_dut =
  pin :: pins_in
  pout :: pins_out
  core :: 'c

type_synonym 'c shell_eval = "64 word \<Rightarrow> pins_in \<Rightarrow> 'c \<Rightarrow> 'c \<times> pins_out"

definition eval_dut :: "'c shell_eval \<Rightarrow> 64 word \<Rightarrow> 'c shell_dut \<Rightarrow> 'c shell_dut" where
  "eval_dut ev t d = (case ev t (pin d) (core d) of (c, out) \<Rightarrow> d\<lparr>pout := out, core := c\<rparr>)"

subsection \<open>SentinelShellTestbench\<close>

text \<open>
  The members of the class that the scenarios use, and the global \<open>sim_time\<close>. Waveform
  tracing and the file names are left out.
\<close>

record 'c shell_tb =
  dut :: "'c shell_dut"
  num_transactions :: "32 word"
  random_seed :: "32 word"
  bp_cycles :: "32 word"
  traces :: "TraceRecord list"
  cycles_run :: "64 word"
  transactions_sent :: "64 word"
  transactions_received :: "64 word"
  sim_time :: "64 word"

text \<open>The constructor, for a new model object \<open>d\<close>.\<close>

definition new_shell_tb :: "'c shell_dut \<Rightarrow> 'c shell_tb" where
  "new_shell_tb d = \<lparr>dut = d, num_transactions = 100, random_seed = 0xDEADBEEF, bp_cycles = 10,
     traces = [], cycles_run = 0, transactions_sent = 0, transactions_received = 0,
     sim_time = 0\<rparr>"

definition set_pin :: "(pins_in \<Rightarrow> pins_in) \<Rightarrow> 'c shell_tb \<Rightarrow> 'c shell_tb" where
  "set_pin f tb = tb\<lparr>dut := (dut tb)\<lparr>pin := f (pin (dut tb))\<rparr>\<rparr>"

definition half_cycle :: "'c shell_eval \<Rightarrow> bool \<Rightarrow> 'c shell_tb \<Rightarrow> 'c shell_tb" where
  "half_cycle ev level tb =
     (let tb1 = set_pin (\<lambda>p. p\<lparr>clk := level\<rparr>) tb;
          tb2 = tb1\<lparr>dut := eval_dut ev (sim_time tb1) (dut tb1)\<rparr>
      in tb2\<lparr>sim_time := sim_time tb2 + 5\<rparr>)"

definition tick :: "'c shell_eval \<Rightarrow> 'c shell_tb \<Rightarrow> 'c shell_tb" where
  "tick ev tb =
     (let tb1 = half_cycle ev True tb;
          tb2 = half_cycle ev False tb1
      in tb2\<lparr>cycles_run := cycles_run tb2 + 1\<rparr>)"

definition reset_pins :: "pins_in \<Rightarrow> pins_in" where
  "reset_pins p = p\<lparr>rst_n := False, in_valid := False, in_data := 0, in_opcode := 0,
     in_meta := 0, out_ready := True, trace_ready := True\<rparr>"

definition reset :: "'c shell_eval \<Rightarrow> 'c shell_tb \<Rightarrow> 'c shell_tb" where
  "reset ev tb =
     (let tb1 = set_pin reset_pins tb;
          tb2 = ((tick ev) ^^ 10) tb1;
          tb3 = set_pin (\<lambda>p. p\<lparr>rst_n := True\<rparr>) tb2
      in tick ev tb3)"

text \<open>
  The loop \<open>while (!dut->in_ready) tick();\<close> of \<open>send_transaction\<close>. It has no bound, so
  it is a partial function: \<open>None\<close> stands for a loop that never ends.
\<close>

partial_function (option) wait_ready :: "'c shell_eval \<Rightarrow> 'c shell_tb \<Rightarrow> 'c shell_tb option" where
  "wait_ready ev tb = (if in_ready (pout (dut tb)) then Some tb else wait_ready ev (tick ev tb))"

definition send_transaction ::
  "'c shell_eval \<Rightarrow> 64 word \<Rightarrow> 16 word \<Rightarrow> 32 word \<Rightarrow> 'c shell_tb \<Rightarrow> 'c shell_tb option" where
  "send_transaction ev data opc mt tb =
     (case wait_ready ev (set_pin (\<lambda>p. p\<lparr>in_valid := True, in_data := data, in_opcode := opc,
                                        in_meta := mt\<rparr>) tb) of
        None \<Rightarrow> None
      | Some tb1 \<Rightarrow>
          (let tb2 = tick ev tb1;
               tb3 = set_pin (\<lambda>p. p\<lparr>in_valid := False\<rparr>) tb2
           in Some (tb3\<lparr>transactions_sent := transactions_sent tb3 + 1\<rparr>)))"

definition pins_record :: "pins_out \<Rightarrow> TraceRecord" where
  "pins_record out = \<lparr>tx_id = trace_tx_id out, t_ingress = trace_t_ingress out,
     t_egress = trace_t_egress out, flags = trace_flags out, opcode = trace_opcode out,
     meta = trace_meta out\<rparr>"

definition collect_trace :: "'c shell_tb \<Rightarrow> bool \<times> 'c shell_tb" where
  "collect_trace tb =
     (if trace_valid (pout (dut tb))
      then (True, tb\<lparr>traces := traces tb @ [pins_record (pout (dut tb))]\<rparr>)
      else (False, tb))"

definition collect_output :: "'c shell_tb \<Rightarrow> bool \<times> 'c shell_tb" where
  "collect_output tb =
     (if out_valid (pout (dut tb)) \<and> out_ready (pin (dut tb))
      then (True, tb\<lparr>transactions_received := transactions_received tb + 1\<rparr>)
      else (False, tb))"

definition process_cycle :: "'c shell_eval \<Rightarrow> 'c shell_tb \<Rightarrow> 'c shell_tb" where
  "process_cycle ev tb =
     (let tb1 = set_pin (\<lambda>p. p\<lparr>trace_ready := True\<rparr>) tb;
          tb2 = snd (collect_output tb1);
          tb3 = tick ev tb2
      in snd (collect_trace tb3))"

text \<open>One iteration of the loop of \<open>drain\<close>, without the decrement of \<open>timeout\<close>.\<close>

definition drain_body :: "'c shell_eval \<Rightarrow> 'c shell_tb \<Rightarrow> 'c shell_tb" where
  "drain_body ev tb =
     (let tb1 = (if out_valid (pout (dut tb)) \<and> out_ready (pin (dut tb))
                 then tb\<lparr>transactions_received := transactions_received tb + 1\<rparr> else tb);
          tb2 = tick ev tb1
      in if trace_ready (pin (dut tb2)) then snd (collect_trace tb2) else tb2)"

text \<open>The loop of \<open>drain\<close>; the result carries the final value of \<open>timeout\<close>.\<close>

function drain_loop :: "'c shell_eval \<Rightarrow> 32 word \<Rightarrow> 'c shell_tb \<Rightarrow> 32 word \<times> 'c shell_tb" where
  "drain_loop ev timeout tb =
     (if transactions_received tb < transactions_sent tb \<and> timeout > 0
      then drain_loop ev (timeout - 1) (drain_body ev tb)
      else (timeout, tb))"
  by pat_completeness auto
termination
  by (relation "measure (\<lambda>(ev, timeout, tb). unat timeout)")
     (auto simp add: unat_minus_one word_greater_zero_iff unat_gt_0)

declare drain_loop.simps [simp del]

text \<open>
  \<open>drain\<close> returns whether it printed the timeout warning, together with the new state.
\<close>

definition drain :: "'c shell_eval \<Rightarrow> 32 word \<Rightarrow> 'c shell_tb \<Rightarrow> bool \<times> 'c shell_tb" where
  "drain ev max_cycles tb =
     (case drain_loop ev max_cycles tb of (timeout, tb') \<Rightarrow> (timeout = 0, tb'))"

text \<open>
  What a cycle captures when a record is taken exactly if the device asserts trace-valid
  while the harness asserts trace-ready.
\<close>

definition captured :: "'c shell_dut \<Rightarrow> TraceRecord list" where
  "captured d = (if trace_valid (pout d) \<and> trace_ready (pin d) then [pins_record (pout d)] else [])"

subsection \<open>Scenarios of the shell driver\<close>

text \<open>
  The inline check \<open>if (dut->out_valid && dut->out_ready) transactions_received++\<close> of
  \<open>test_overflow\<close>.
\<close>

definition note_output :: "'c shell_tb \<Rightarrow> 'c shell_tb" where
  "note_output tb =
     (if out_valid (pout (dut tb)) \<and> out_ready (pin (dut tb))
      then tb\<lparr>transactions_received := transactions_received tb + 1\<rparr> else tb)"

text \<open>
  The send loop of \<open>test_overflow\<close>: \<open>m\<close> iterations are left and \<open>i\<close> is the loop
  counter, a 32-bit value that the loop condition keeps below \<open>num_transactions\<close>.
\<close>

fun overflow_sends :: "'c shell_eval \<Rightarrow> nat \<Rightarrow> nat \<Rightarrow> 'c shell_tb \<Rightarrow> 'c shell_tb option" where
  "overflow_sends ev 0 i tb = Some tb"
| "overflow_sends ev (Suc m) i tb =
     (case send_transaction ev (ucast (word_of_nat i :: 32 word))
             (ucast (and (word_of_nat i :: 32 word) 0xFFFF)) (word_of_nat i) (note_output tb) of
        None \<Rightarrow> None
      | Some tb1 \<Rightarrow> overflow_sends ev m (Suc i) tb1)"

text \<open>The drain loop of \<open>test_overflow\<close>, which leaves the trace pins alone.\<close>

function overflow_drain :: "'c shell_eval \<Rightarrow> 32 word \<Rightarrow> 'c shell_tb \<Rightarrow> 32 word \<times> 'c shell_tb" where
  "overflow_drain ev timeout tb =
     (if transactions_received tb < transactions_sent tb \<and> timeout > 0
      then overflow_drain ev (timeout - 1) (tick ev (note_output tb))
      else (timeout, tb))"
  by pat_completeness auto
termination
  by (relation "measure (\<lambda>(ev, timeout, tb). unat timeout)")
     (auto simp add: unat_minus_one word_greater_zero_iff unat_gt_0)

declare overflow_drain.simps [simp del]

text \<open>
  \<open>test_overflow\<close> returns its verdict (0 for pass, 1 for fail) and the final state, or
  nothing when a \<open>send_transaction\<close> never returns.
\<close>

definition test_overflow :: "'c shell_eval \<Rightarrow> 'c shell_tb \<Rightarrow> (int \<times> 'c shell_tb) option" where
  "test_overflow ev tb =
     (let tb1 = set_pin (\<lambda>p. p\<lparr>trace_ready := False\<rparr>) (reset ev tb) in
      case overflow_sends ev (unat (num_transactions tb1)) 0 tb1 of
        None \<Rightarrow> None
      | Some tb2 \<Rightarrow>
          (let tb3 = snd (overflow_drain ev 10000 tb2);
               pass = (transactions_received tb3 = ucast (num_transactions tb3) \<and>
                       trace_drop_count (pout (dut tb3)) \<noteq> 0 \<and>
                       trace_overflow_seen (pout (dut tb3)))
           in Some (if pass then 0 else 1, tb3)))"






subsection \<open>What the driver relies on in the device\<close>

text \<open>
  Modelled from the spec: the reset contract of the missing shell. \<open>reset()\<close> establishes a
  known state: the device is in the same state after it, whatever happened before.
\<close>

definition reset_known :: "'c shell_eval \<Rightarrow> bool" where
  "reset_known ev = (\<forall>tb tb'. dut (reset ev tb) = dut (reset ev tb'))"
section \<open>Devices under test\<close>

subsection \<open>A device that never asserts input-ready\<close>

text \<open>All outputs low, whatever the inputs: the stalled device the drain timeout is for.\<close>

definition zero_outputs :: pins_out where
  "zero_outputs = \<lparr>in_ready = False, out_valid = False, trace_valid = False, trace_tx_id = 0,
     trace_t_ingress = 0, trace_t_egress = 0, trace_flags = 0, trace_opcode = 0, trace_meta = 0,
     trace_drop_count = 0, in_backpressure_cycles = 0, out_backpressure_cycles = 0,
     inflight_underflow_count = 0, trace_overflow_seen = False\<rparr>"

definition zero_inputs :: pins_in where
  "zero_inputs = \<lparr>clk = False, rst_n = False, in_valid = False, in_data = 0, in_opcode = 0,
     in_meta = 0, out_ready = False, trace_ready = False\<rparr>"

definition stalled_eval :: "unit shell_eval" where
  "stalled_eval t p c = (c, zero_outputs)"

definition stalled_dut :: "unit shell_dut" where
  "stalled_dut = \<lparr>pin = zero_inputs, pout = zero_outputs, core = ()\<rparr>"

subsection \<open>The pass-through shell\<close>

text \<open>
  The synthesizable shell is not part of the sources. The pass-through shell below is
  modelled from the specification: transfers happen on a clock edge where valid and ready
  are both high, transactions get the identities 0, 1, 2, ... in the order of their
  admission, every completed transaction yields one trace record, and the trace buffer
  holds at most \<open>cap\<close> records and drops a record that arrives when it is full, counting
  the drop and setting the sticky overflow flag. The specification leaves the depth and
  the latency of the pipeline open; this one holds one transaction at a time and passes it
  on after one cycle.
\<close>

text \<open>
  Modelled from the spec: the registers of the missing shell: the staged transaction
  (identity, ingress time, opcode, metadata), the next identity, the cycle counter that
  gives the timestamps, the trace buffer, the drop counter, the sticky overflow flag and
  the two backpressure counters; \<open>last_clk\<close> is the clock level seen by the previous
  evaluation.
\<close>

record shell_core =
  last_clk :: bool
  stage :: "(64 word \<times> 64 word \<times> 16 word \<times> 32 word) option"
  next_tx_id :: "64 word"
  cycle_count :: "64 word"
  fifo :: "TraceRecord list"
  drops :: "64 word"
  overflow :: bool
  in_bp :: "64 word"
  out_bp :: "64 word"

text \<open>
  Modelled from the spec: the known-zero state of the missing shell under reset.
\<close>

definition init_core :: shell_core where
  "init_core = \<lparr>last_clk = False, stage = None, next_tx_id = 0, cycle_count = 0, fifo = [],
     drops = 0, overflow = False, in_bp = 0, out_bp = 0\<rparr>"

text \<open>
  Modelled from the spec: the record that the missing shell shows on its trace pins, the
  oldest one in the buffer (zeros when the buffer is empty).
\<close>

definition head_record :: "TraceRecord list \<Rightarrow> TraceRecord" where
  "head_record rs = (case rs of
       [] \<Rightarrow> \<lparr>tx_id = 0, t_ingress = 0, t_egress = 0, flags = 0, opcode = 0, meta = 0\<rparr>
     | r # _ \<Rightarrow> r)"

text \<open>
  Modelled from the spec: the output pins of the missing shell, from its state and its
  ready inputs.
\<close>

definition shell_outputs :: "pins_in \<Rightarrow> shell_core \<Rightarrow> pins_out" where
  "shell_outputs p c =
     \<lparr>in_ready = (stage c = None \<or> out_ready p),
      out_valid = (stage c \<noteq> None),
      trace_valid = (fifo c \<noteq> []),
      trace_tx_id = tx_id (head_record (fifo c)),
      trace_t_ingress = t_ingress (head_record (fifo c)),
      trace_t_egress = t_egress (head_record (fifo c)),
      trace_flags = flags (head_record (fifo c)),
      trace_opcode = opcode (head_record (fifo c)),
      trace_meta = meta (head_record (fifo c)),
      trace_drop_count = drops c,
      in_backpressure_cycles = in_bp c,
      out_backpressure_cycles = out_bp c,
      inflight_underflow_count = 0,
      trace_overflow_seen = overflow c\<rparr>"

text \<open>
  Modelled from the spec: the input handshake of the missing shell on a clock edge. A
  transfer happens where valid and ready are both high; the shell is ready when its stage
  is free or is being emptied.
\<close>

definition in_hs :: "pins_in \<Rightarrow> shell_core \<Rightarrow> bool" where
  "in_hs p c = (in_valid p \<and> (stage c = None \<or> out_ready p))"

text \<open>
  Modelled from the spec: the output handshake of the missing shell on a clock edge.
\<close>

definition out_hs :: "pins_in \<Rightarrow> shell_core \<Rightarrow> bool" where
  "out_hs p c = (stage c \<noteq> None \<and> out_ready p)"

text \<open>
  Modelled from the spec: the trace handshake of the missing shell on a clock edge.
\<close>

definition trace_hs :: "pins_in \<Rightarrow> shell_core \<Rightarrow> bool" where
  "trace_hs p c = (fifo c \<noteq> [] \<and> trace_ready p)"

text \<open>
  Modelled from the spec: what is left in the trace buffer of the missing shell after the
  trace handshake has taken the oldest record out.
\<close>

definition kept :: "pins_in \<Rightarrow> shell_core \<Rightarrow> TraceRecord list" where
  "kept p c = (if trace_hs p c then tl (fifo c) else fifo c)"

text \<open>
  Modelled from the spec: the drop-when-full policy of the missing shell. The record of a
  completing transaction is dropped when the buffer already holds \<open>cap\<close> records.
\<close>

definition dropping :: "nat \<Rightarrow> pins_in \<Rightarrow> shell_core \<Rightarrow> bool" where
  "dropping cap p c = (out_hs p c \<and> cap \<le> length (kept p c))"

text \<open>
  Modelled from the spec: the trace record of the transaction that completes in the
  missing shell: its identity, its ingress time, the current cycle as egress time, its
  opcode and metadata.
\<close>

definition completed_record :: "shell_core \<Rightarrow> TraceRecord" where
  "completed_record c = (case stage c of
       Some (i, t, opc, mt) \<Rightarrow> \<lparr>tx_id = i, t_ingress = t, t_egress = cycle_count c, flags = 0,
                                 opcode = opc, meta = mt\<rparr>
     | None \<Rightarrow> \<lparr>tx_id = 0, t_ingress = 0, t_egress = 0, flags = 0, opcode = 0, meta = 0\<rparr>)"

text \<open>
  Modelled from the spec: one rising clock edge of the missing shell, out of reset. The
  output handshake completes the staged transaction and offers its record to the trace
  buffer; a dropped record raises the drop counter and sets the sticky overflow flag; the
  input handshake stages the next transaction with the next identity and the current cycle
  as its ingress time; the backpressure counters count the cycles in which a valid side
  waits for a ready that is low.
\<close>

definition shell_edge :: "nat \<Rightarrow> pins_in \<Rightarrow> shell_core \<Rightarrow> shell_core" where
  "shell_edge cap p c =
     \<lparr>last_clk = last_clk c,
      stage = (if in_hs p c then Some (next_tx_id c, cycle_count c, in_opcode p, in_meta p)
               else if out_hs p c then None else stage c),
      next_tx_id = (if in_hs p c then next_tx_id c + 1 else next_tx_id c),
      cycle_count = cycle_count c + 1,
      fifo = (if out_hs p c \<and> length (kept p c) < cap then kept p c @ [completed_record c]
              else kept p c),
      drops = (if dropping cap p c then drops c + 1 else drops c),
      overflow = (overflow c \<or> dropping cap p c),
      in_bp = (if in_valid p \<and> \<not> (stage c = None \<or> out_ready p) then in_bp c + 1 else in_bp c),
      out_bp = (if stage c \<noteq> None \<and> \<not> out_ready p then out_bp c + 1 else out_bp c)\<rparr>"

text \<open>
  Modelled from the spec: the evaluation of the missing shell. While reset is held the
  state is the known-zero state; a rising clock edge out of reset makes one step; the
  simulated time is not read.
\<close>

definition shell_eval :: "nat \<Rightarrow> shell_core shell_eval" where
  "shell_eval cap t p c =
     (let c' = (if \<not> rst_n p then init_core\<lparr>last_clk := clk p\<rparr>
                else if clk p \<and> \<not> last_clk c then (shell_edge cap p c)\<lparr>last_clk := True\<rparr>
                else c\<lparr>last_clk := clk p\<rparr>)
      in (c', shell_outputs p c'))"

text \<open>The model object of the pass-through shell as constructed.\<close>

definition new_shell_dut :: "shell_core shell_dut" where
  "new_shell_dut = \<lparr>pin = zero_inputs, pout = zero_outputs, core = init_core\<rparr>"

text \<open>The input pins after \<open>reset()\<close>, and the state of the pass-through shell then.\<close>

definition idle_pins :: pins_in where
  "idle_pins = \<lparr>clk = False, rst_n = True, in_valid = False, in_data = 0, in_opcode = 0,
     in_meta = 0, out_ready = True, trace_ready = True\<rparr>"

definition ready_core :: shell_core where
  "ready_core = init_core\<lparr>cycle_count := 1\<rparr>"

subsection \<open>A risk gate that admits every order\<close>

definition zero_risk_inputs :: risk_in where
  "zero_risk_inputs = \<lparr>g_clk = False, g_rst_n = False, cfg_rate_max_tokens = 0,
     cfg_rate_refill_rate = 0, cfg_rate_refill_period = 0, cfg_rate_enabled = False,
     cfg_pos_max_long = 0, cfg_pos_max_short = 0, cfg_pos_max_notional = 0,
     cfg_pos_max_order_qty = 0, cfg_pos_enabled = False, cfg_kill_armed = False,
     cfg_kill_auto_enabled = False, cfg_kill_loss_threshold = 0, cmd_kill_trigger = False,
     cmd_kill_reset = False, g_in_valid = False, g_in_data = 0, in_order_id = 0,
     in_symbol_id = 0, in_side = 0, in_order_type = 0, in_quantity = 0, in_price = 0,
     in_notional = 0, g_out_ready = False, fill_valid = False, fill_side = 0, fill_qty = 0,
     fill_notional = 0, current_pnl = 0, pnl_is_loss = False\<rparr>"

definition admit_all :: risk_out where
  "admit_all = \<lparr>out_rejected = False, out_reject_reason = 0, stat_total = 0, stat_passed = 0\<rparr>"

definition open_gate_eval :: "unit risk_eval" where
  "open_gate_eval p c = (c, admit_all)"

definition open_gate_dut :: "unit risk_dut" where
  "open_gate_dut = \<lparr>rin = zero_risk_inputs, rout = admit_all, rcore = ()\<rparr>"

subsection \<open>Runs on the pass-through shell\<close>

text \<open>
  The pass-through shell with a buffer of four records after \<open>reset()\<close>, with the output
  side blocked as \<open>test_backpressure\<close> blocks it.
\<close>

definition blocked_tb :: "shell_core shell_tb" where
  "blocked_tb = set_pin (\<lambda>p. p\<lparr>out_ready := False\<rparr>)
     (reset (shell_eval 4) (new_shell_tb new_shell_dut))"

subsection \<open>A shell that stamps with the simulated time\<close>

text \<open>
  Modelled from the spec: one rising clock edge of a shell whose timestamps are ticks of
  the simulated time, as the data model has \<open>t_ingress\<close> and \<open>t_egress\<close>. It is the edge
  of the pass-through shell with the simulated time \<open>t\<close> of the evaluation in the place of
  the cycle count; this shell keeps no count of its own, the field stays zero.
\<close>

definition stamp_edge :: "nat \<Rightarrow> 64 word \<Rightarrow> pins_in \<Rightarrow> shell_core \<Rightarrow> shell_core" where
  "stamp_edge cap t p c = (shell_edge cap p (c\<lparr>cycle_count := t\<rparr>))\<lparr>cycle_count := 0\<rparr>"





text \<open>
  The state of \<open>test_overflow\<close> on the pass-through shell after \<open>k\<close> transactions have
  been sent: the last one is staged, the \<open>k - 1\<close> before it have completed and been counted,
  and of their records the buffer holds the first \<open>cap\<close> while the others were dropped.
\<close>

definition over_inv :: "nat \<Rightarrow> nat \<Rightarrow> shell_core shell_tb \<Rightarrow> bool" where
  "over_inv cap k tb =
     (rst_n (pin (dut tb)) \<and> out_ready (pin (dut tb)) \<and> \<not> trace_ready (pin (dut tb)) \<and>
      \<not> in_valid (pin (dut tb)) \<and> \<not> last_clk (core (dut tb)) \<and>
      pout (dut tb) = shell_outputs (pin (dut tb)) (core (dut tb)) \<and>
      (stage (core (dut tb)) = None) = (k = 0) \<and>
      length (fifo (core (dut tb))) = min (k - 1) cap \<and>
      drops (core (dut tb)) = of_nat (k - 1 - cap) \<and>
      overflow (core (dut tb)) = (cap < k - 1) \<and>
      transactions_sent tb = of_nat k \<and>
      transactions_received tb = of_nat (k - 1))"

text \<open>The end of \<open>test_overflow\<close> on the pass-through shell after \<open>n\<close> transactions.\<close>

definition done_inv :: "nat \<Rightarrow> nat \<Rightarrow> shell_core shell_tb \<Rightarrow> bool" where
  "done_inv cap n tb =
     (transactions_received tb = of_nat n \<and> transactions_sent tb = of_nat n \<and>
      \<not> trace_ready (pin (dut tb)) \<and>
      trace_drop_count (pout (dut tb)) = of_nat (n - cap) \<and>
      trace_overflow_seen (pout (dut tb)) = (cap < n))"

section \<open>Properties of the risk gate driver\<close>

lemma set_rin_counters [simp]:
  "orders_sent (set_rin f tb) = orders_sent tb"
  "orders_passed (set_rin f tb) = orders_passed tb"
  "orders_rejected (set_rin f tb) = orders_rejected tb"
  "order_id (set_rin f tb) = order_id tb"
  "cycles (set_rin f tb) = cycles tb"
  "g_sim_time (set_rin f tb) = g_sim_time tb"
  by (simp_all add: set_rin_def)

lemma risk_tick_counters [simp]:
  "orders_sent (risk_tick ev tb) = orders_sent tb"
  "orders_passed (risk_tick ev tb) = orders_passed tb"
  "orders_rejected (risk_tick ev tb) = orders_rejected tb"
  "order_id (risk_tick ev tb) = order_id tb"
  "cycles (risk_tick ev tb) = cycles tb + 1"
  by (simp_all add: risk_tick_def Let_def)

lemma risk_tick_pow_counters [simp]:
  "orders_sent (((risk_tick ev) ^^ n) tb) = orders_sent tb"
  "orders_passed (((risk_tick ev) ^^ n) tb) = orders_passed tb"
  "orders_rejected (((risk_tick ev) ^^ n) tb) = orders_rejected tb"
  "order_id (((risk_tick ev) ^^ n) tb) = order_id tb"
  by (induction n) simp_all

lemma risk_reset_counters [simp]:
  "orders_sent (risk_reset ev tb) = orders_sent tb"
  "orders_passed (risk_reset ev tb) = orders_passed tb"
  "orders_rejected (risk_reset ev tb) = orders_rejected tb"
  "order_id (risk_reset ev tb) = order_id tb"
  by (simp_all add: risk_reset_def Let_def)

lemma send_order_counters:
  "orders_sent (snd (send_order ev s t q p n tb)) = orders_sent tb + 1"
  "fst (send_order ev s t q p n tb) \<Longrightarrow>
     orders_passed (snd (send_order ev s t q p n tb)) = orders_passed tb + 1 \<and>
     orders_rejected (snd (send_order ev s t q p n tb)) = orders_rejected tb"
  "\<not> fst (send_order ev s t q p n tb) \<Longrightarrow>
     orders_passed (snd (send_order ev s t q p n tb)) = orders_passed tb \<and>
     orders_rejected (snd (send_order ev s t q p n tb)) = orders_rejected tb + 1"
  by (simp_all add: send_order_def Let_def)

lemma risk_apply_balanced:
  "counters_balanced tb \<Longrightarrow> counters_balanced (risk_apply ev tb op)"
proof (cases op)
  case (OpSendOrder s t q p n)
  assume b: "counters_balanced tb"
  show ?thesis
  proof (cases "fst (send_order ev s t q p n tb)")
    case True
    with b OpSendOrder show ?thesis
      by (simp add: counters_balanced_def send_order_counters)
  next
    case False
    with b OpSendOrder show ?thesis
      by (simp add: counters_balanced_def send_order_counters)
  qed
qed (simp_all add: counters_balanced_def send_fill_def trigger_kill_def reset_kill_def
       zero_order_stats_def Let_def)

lemma risk_run_balanced:
  "counters_balanced tb \<Longrightarrow> counters_balanced (risk_run ev tb ops)"
  unfolding risk_run_def
  by (induction ops arbitrary: tb) (simp_all add: risk_apply_balanced)

lemma send_order_order_id:
  "order_id (snd (send_order ev s t q p n tb)) = order_id tb + 1"
  by (simp add: send_order_def Let_def)

text \<open>
  Claim C10. Every call of \<open>send_order\<close> adds one to \<open>orders_sent\<close> and one to exactly one
  of \<open>orders_passed\<close> and \<open>orders_rejected\<close> (the counters are 64-bit and wrap), and
  \<open>orders_sent = orders_passed + orders_rejected\<close> holds after every sequence of driver
  operations on a new testbench, the joint re-zeroing of \<open>test_stress\<close> included.
\<close>

theorem send_order_counts_exactly_once:
  "orders_sent (snd (send_order ev s t q p n tb)) = orders_sent tb + 1 \<and>
   (orders_passed (snd (send_order ev s t q p n tb)) = orders_passed tb + 1 \<and>
    orders_rejected (snd (send_order ev s t q p n tb)) = orders_rejected tb \<or>
    orders_passed (snd (send_order ev s t q p n tb)) = orders_passed tb \<and>
    orders_rejected (snd (send_order ev s t q p n tb)) = orders_rejected tb + 1) \<and>
   counters_balanced (risk_run ev (new_risk_tb d) ops)"
proof -
  have "counters_balanced (new_risk_tb d)"
    by (simp add: counters_balanced_def new_risk_tb_def)
  then have "counters_balanced (risk_run ev (new_risk_tb d) ops)"
    by (rule risk_run_balanced)
  then show ?thesis
    using send_order_counters [of ev s t q p n tb]
    by (cases "fst (send_order ev s t q p n tb)") simp_all
qed

section \<open>Properties of the risk policy contract\<close>




text \<open>
  Claim C1. When the kill switch is armed and triggered, the reject reason of every order is
  \<open>KILL_SWITCH\<close>, whatever the rate and position limiters would say. After an explicit
  kill reset, an order that fails the rate limiter and also the order-size or position
  limiter is rejected with \<open>RATE_LIMITED\<close>: the rate limit outranks the position limit.
\<close>

theorem kill_switch_outranks_all:
  "(kill_armed cfg \<and> triggered st \<longrightarrow> gate_decide cfg st ord = RISK_KILL_SWITCH) \<and>
   (rate_fails cfg (kill_reset st) ord \<and>
      (size_fails cfg ord \<or> position_fails cfg (kill_reset st) ord) \<longrightarrow>
    gate_decide cfg (kill_reset st) ord = RISK_RATE_LIMITED)"
  by (simp add: gate_decide_def rate_fails_def kill_reset_def)

theorem kill_switch_outranks_all_witness:
  "kill_armed priority_cfg \<and> triggered killed_empty_state \<and>
   rate_fails priority_cfg (kill_reset killed_empty_state) buy_new_100 \<and>
   size_fails priority_cfg buy_new_100 \<and>
   position_fails priority_cfg (kill_reset killed_empty_state) buy_new_100 \<and>
   gate_decide priority_cfg killed_empty_state buy_new_100 = RISK_KILL_SWITCH \<and>
   gate_decide priority_cfg (kill_reset killed_empty_state) buy_new_100 = RISK_RATE_LIMITED"
  using kill_switch_outranks_all [of priority_cfg killed_empty_state buy_new_100]
  by (simp add: priority_cfg_def killed_empty_state_def buy_new_100_def rate_fails_def
      size_fails_def position_fails_def kill_reset_def resulting_position_def
      resulting_notional_def signed_by_def)

text \<open>
  Claim C7. A \<open>HEARTBEAT\<close> order submitted while the kill switch is not triggered is
  admitted whatever the state of the rate limiter (enabled or not, any token count, zero
  included), and the state is unchanged: no token is consumed.
\<close>

theorem heartbeat_bypasses_rate_limit:
  "o_type ord = ORDER_HEARTBEAT \<Longrightarrow> \<not> triggered st \<Longrightarrow> gate_submit cfg st ord = (RISK_OK, st)"
  by (simp add: gate_submit_def gate_decide_def)

theorem heartbeat_bypasses_rate_limit_witness:
  "o_type heartbeat_order = ORDER_HEARTBEAT \<and> \<not> triggered idle_empty_state \<and>
   rate_enabled heartbeat_cfg \<and> tokens idle_empty_state = 0 \<and>
   gate_submit heartbeat_cfg idle_empty_state heartbeat_order = (RISK_OK, idle_empty_state)"
  using heartbeat_bypasses_rate_limit [of heartbeat_order idle_empty_state heartbeat_cfg]
  by (simp add: heartbeat_order_def idle_empty_state_def heartbeat_cfg_def)

text \<open>
  Claim C8. For a \<open>CANCEL\<close> or \<open>MODIFY\<close> order the verdict is the one the gate would give
  with the position limiter disabled, whatever the quantity; when neither the kill switch
  nor the rate limiter rejects, it is admitted. With the limiter enabled and the position at
  \<open>max_long\<close>, a \<open>NEW\<close> buy order of positive quantity is rejected by the limiter.
\<close>

theorem cancel_modify_bypass_position_limit:
  "(o_type ord = ORDER_CANCEL \<or> o_type ord = ORDER_MODIFY \<longrightarrow>
      gate_decide cfg st ord = gate_decide (cfg\<lparr>pos_enabled := False\<rparr>) st ord \<and>
      (\<not> kill_fails cfg st \<and> \<not> rate_fails cfg st ord \<longrightarrow> gate_decide cfg st ord = RISK_OK)) \<and>
   (pos_enabled cfg \<and> position st = int (max_long cfg) \<and>
    \<not> kill_fails cfg st \<and> \<not> rate_fails cfg st new \<and>
    o_type new = ORDER_NEW \<and> o_side new = SIDE_BUY \<and> 0 < o_quantity new \<longrightarrow>
      gate_decide cfg st new = RISK_ORDER_SIZE \<or> gate_decide cfg st new = RISK_POSITION_LIMIT)"
  by (auto simp add: gate_decide_def kill_fails_def rate_fails_def resulting_position_def
      signed_by_def)

theorem cancel_modify_bypass_position_limit_witness:
  "o_type cancel_500 = ORDER_CANCEL \<and> \<not> kill_fails cancel_cfg full_long_state \<and>
   \<not> rate_fails cancel_cfg full_long_state cancel_500 \<and>
   pos_enabled cancel_cfg \<and> position full_long_state = int (max_long cancel_cfg) \<and>
   \<not> rate_fails cancel_cfg full_long_state buy_new_100 \<and>
   o_type buy_new_100 = ORDER_NEW \<and> o_side buy_new_100 = SIDE_BUY \<and> 0 < o_quantity buy_new_100 \<and>
   gate_decide cancel_cfg full_long_state cancel_500 = RISK_OK \<and>
   gate_decide cancel_cfg full_long_state buy_new_100 = RISK_POSITION_LIMIT"
  using cancel_modify_bypass_position_limit [of cancel_500 cancel_cfg full_long_state buy_new_100]
  by (simp add: cancel_500_def cancel_cfg_def full_long_state_def buy_new_100_def
      kill_fails_def rate_fails_def gate_decide_def resulting_position_def
      resulting_notional_def signed_by_def)



section \<open>Properties of the shell driver\<close>

subsection \<open>The bytes of a trace record\<close>

lemma le_bytes_length: "length (le_bytes (w :: 'a::len word)) = LENGTH('a) div 8"
  by (simp add: le_bytes_def)

lemma record_bytes_length: "length (record_bytes r) = 32"
  by (simp add: record_bytes_def le_bytes_length)

lemma memcmp_equal_same: "memcmp_equal r r"
  by (simp add: memcmp_equal_def)



subsection \<open>Steps of the driver\<close>

lemma set_pin_fields [simp]:
  "traces (set_pin f tb) = traces tb"
  "transactions_sent (set_pin f tb) = transactions_sent tb"
  "transactions_received (set_pin f tb) = transactions_received tb"
  "cycles_run (set_pin f tb) = cycles_run tb"
  "sim_time (set_pin f tb) = sim_time tb"
  "num_transactions (set_pin f tb) = num_transactions tb"
  "random_seed (set_pin f tb) = random_seed tb"
  "bp_cycles (set_pin f tb) = bp_cycles tb"
  "pin (dut (set_pin f tb)) = f (pin (dut tb))"
  "pout (dut (set_pin f tb)) = pout (dut tb)"
  "core (dut (set_pin f tb)) = core (dut tb)"
  by (simp_all add: set_pin_def)

lemma eval_dut_fields [simp]:
  "pin (eval_dut ev t d) = pin d"
  "pout (eval_dut ev t d) = snd (ev t (pin d) (core d))"
  "core (eval_dut ev t d) = fst (ev t (pin d) (core d))"
  by (simp_all add: eval_dut_def split_beta)

lemma half_cycle_fields [simp]:
  "traces (half_cycle ev l tb) = traces tb"
  "transactions_sent (half_cycle ev l tb) = transactions_sent tb"
  "transactions_received (half_cycle ev l tb) = transactions_received tb"
  "cycles_run (half_cycle ev l tb) = cycles_run tb"
  "sim_time (half_cycle ev l tb) = sim_time tb + 5"
  "num_transactions (half_cycle ev l tb) = num_transactions tb"
  "random_seed (half_cycle ev l tb) = random_seed tb"
  "bp_cycles (half_cycle ev l tb) = bp_cycles tb"
  "pin (dut (half_cycle ev l tb)) = (pin (dut tb))\<lparr>clk := l\<rparr>"
  "pout (dut (half_cycle ev l tb)) = snd (ev (sim_time tb) ((pin (dut tb))\<lparr>clk := l\<rparr>) (core (dut tb)))"
  "core (dut (half_cycle ev l tb)) = fst (ev (sim_time tb) ((pin (dut tb))\<lparr>clk := l\<rparr>) (core (dut tb)))"
  by (simp_all add: half_cycle_def Let_def)

lemma tick_fields [simp]:
  "traces (tick ev tb) = traces tb"
  "transactions_sent (tick ev tb) = transactions_sent tb"
  "transactions_received (tick ev tb) = transactions_received tb"
  "cycles_run (tick ev tb) = cycles_run tb + 1"
  "sim_time (tick ev tb) = sim_time tb + 10"
  "num_transactions (tick ev tb) = num_transactions tb"
  "random_seed (tick ev tb) = random_seed tb"
  "bp_cycles (tick ev tb) = bp_cycles tb"
  "pin (dut (tick ev tb)) = (pin (dut tb))\<lparr>clk := False\<rparr>"
  by (simp_all add: tick_def Let_def)

lemma tick_pow_fields [simp]:
  "traces (((tick ev) ^^ n) tb) = traces tb"
  "transactions_sent (((tick ev) ^^ n) tb) = transactions_sent tb"
  "transactions_received (((tick ev) ^^ n) tb) = transactions_received tb"
  "cycles_run (((tick ev) ^^ n) tb) = cycles_run tb + of_nat n"
  "num_transactions (((tick ev) ^^ n) tb) = num_transactions tb"
  "random_seed (((tick ev) ^^ n) tb) = random_seed tb"
  by (induction n) simp_all

lemma tick_pow_pin_clk:
  "(pin (dut (((tick ev) ^^ n) tb)))\<lparr>clk := False\<rparr> = (pin (dut tb))\<lparr>clk := False\<rparr>"
  by (induction n) simp_all

lemma tick_pow_pin:
  "0 < n \<Longrightarrow> pin (dut (((tick ev) ^^ n) tb)) = (pin (dut tb))\<lparr>clk := False\<rparr>"
  by (cases n) (simp_all add: tick_pow_pin_clk)

lemma reset_fields [simp]:
  "traces (reset ev tb) = traces tb"
  "transactions_sent (reset ev tb) = transactions_sent tb"
  "transactions_received (reset ev tb) = transactions_received tb"
  "cycles_run (reset ev tb) = cycles_run tb + 11"
  "num_transactions (reset ev tb) = num_transactions tb"
  "random_seed (reset ev tb) = random_seed tb"
  by (simp_all add: reset_def Let_def)

lemma reset_pin:
  "pin (dut (reset ev tb)) = (reset_pins (pin (dut tb)))\<lparr>rst_n := True, clk := False\<rparr>"
  by (simp add: reset_def Let_def tick_pow_pin)

lemma collect_trace_traces:
  "traces (snd (collect_trace tb)) =
     traces tb @ (if trace_valid (pout (dut tb)) then [pins_record (pout (dut tb))] else [])"
  by (simp add: collect_trace_def)

lemma collect_trace_dut [simp]: "dut (snd (collect_trace tb)) = dut tb"
  by (simp add: collect_trace_def)

lemma collect_output_fields [simp]:
  "traces (snd (collect_output tb)) = traces tb"
  "dut (snd (collect_output tb)) = dut tb"
  "transactions_sent (snd (collect_output tb)) = transactions_sent tb"
  by (simp_all add: collect_output_def)

lemma process_cycle_traces:
  "traces (process_cycle ev tb) = traces tb @ captured (dut (process_cycle ev tb))"
  by (simp add: process_cycle_def Let_def collect_trace_traces captured_def)

lemma process_cycle_trace_ready: "trace_ready (pin (dut (process_cycle ev tb)))"
  by (simp add: process_cycle_def Let_def)

lemma drain_body_traces:
  "traces (drain_body ev tb) = traces tb @ captured (dut (drain_body ev tb))"
  by (simp add: drain_body_def Let_def collect_trace_traces captured_def)

lemma drain_body_pin: "pin (dut (drain_body ev tb)) = (pin (dut tb))\<lparr>clk := False\<rparr>"
  by (simp add: drain_body_def Let_def)

lemma drain_loop_bounded:
  "\<exists>k \<le> unat timeout. drain_loop ev timeout tb = (timeout - of_nat k, ((drain_body ev) ^^ k) tb)"
proof (induction ev timeout tb rule: drain_loop.induct)
  case (1 ev timeout tb)
  show ?case
  proof (cases "transactions_received tb < transactions_sent tb \<and> timeout > 0")
    case True
    then have nz: "timeout \<noteq> 0" by auto
    from 1 [OF True] obtain k where k: "k \<le> unat (timeout - 1)"
      and eq: "drain_loop ev (timeout - 1) (drain_body ev tb) =
                 (timeout - 1 - of_nat k, ((drain_body ev) ^^ k) (drain_body ev tb))"
      by blast
    have "unat (timeout - 1) = unat timeout - 1" using nz by (simp add: unat_minus_one)
    moreover have "0 < unat timeout" using nz by (simp add: unat_gt_0)
    ultimately have "Suc k \<le> unat timeout" using k by simp
    moreover have "drain_loop ev timeout tb = (timeout - of_nat (Suc k), ((drain_body ev) ^^ Suc k) tb)"
      using True eq by (subst drain_loop.simps) (simp add: funpow_swap1)
    ultimately show ?thesis by blast
  next
    case False
    then have "drain_loop ev timeout tb = (timeout - of_nat 0, ((drain_body ev) ^^ 0) tb)"
      by (subst drain_loop.simps) auto
    then show ?thesis by blast
  qed
qed

lemma drain_loop_exit:
  "drain_loop ev timeout tb = (t', tb') \<Longrightarrow>
   \<not> (transactions_received tb' < transactions_sent tb' \<and> t' > 0)"
proof (induction ev timeout tb rule: drain_loop.induct)
  case (1 ev timeout tb)
  show ?case
  proof (cases "transactions_received tb < transactions_sent tb \<and> timeout > 0")
    case True
    then have "drain_loop ev timeout tb = drain_loop ev (timeout - 1) (drain_body ev tb)"
      by (subst drain_loop.simps) simp
    with 1 True show ?thesis by simp
  next
    case False
    then have "drain_loop ev timeout tb = (timeout, tb)"
      by (subst drain_loop.simps) auto
    with 1 False show ?thesis by auto
  qed
qed

lemma wait_ready_now: "in_ready (pout (dut tb)) \<Longrightarrow> wait_ready ev tb = Some tb"
  by (subst wait_ready.simps) simp

lemma wait_ready_later:
  "\<not> in_ready (pout (dut tb)) \<Longrightarrow> wait_ready ev tb = wait_ready ev (tick ev tb)"
  by (subst wait_ready.simps) simp

lemma wait_ready_Some_ticks:
  "wait_ready ev tb = Some tb' \<Longrightarrow>
   \<exists>n. tb' = ((tick ev) ^^ n) tb \<and> in_ready (pout (dut tb'))"
proof (induction rule: wait_ready.raw_induct [rotated 1, consumes 1])
  case (1 wr ev tb tb')
  show ?case
  proof (cases "in_ready (pout (dut tb))")
    case True
    with 1 have "tb' = tb" by simp
    with True have "tb' = ((tick ev) ^^ 0) tb \<and> in_ready (pout (dut tb'))" by simp
    then show ?thesis by (rule exI)
  next
    case False
    with 1(2) have "wr ev (tick ev tb) = Some tb'" by simp
    from 1(1) [OF this] obtain n where
      n: "tb' = ((tick ev) ^^ n) (tick ev tb)" "in_ready (pout (dut tb'))"
      by (elim exE conjE)
    then have "tb' = ((tick ev) ^^ Suc n) tb \<and> in_ready (pout (dut tb'))"
      by (simp add: funpow_swap1)
    then show ?thesis by (rule exI)
  qed
qed

lemma wait_ready_eventually:
  "in_ready (pout (dut (((tick ev) ^^ n) tb))) \<Longrightarrow> \<exists>tb'. wait_ready ev tb = Some tb'"
proof (induction n arbitrary: tb)
  case 0
  then show ?case by (simp add: wait_ready_now)
next
  case (Suc n)
  show ?case
  proof (cases "in_ready (pout (dut tb))")
    case True
    then show ?thesis by (simp add: wait_ready_now)
  next
    case False
    from Suc.prems have "in_ready (pout (dut (((tick ev) ^^ n) (tick ev tb))))"
      by (simp add: funpow_swap1)
    from Suc.IH [OF this] show ?thesis using False by (simp add: wait_ready_later)
  qed
qed

lemma wait_ready_returns_iff:
  "(wait_ready ev tb \<noteq> None) = (\<exists>n. in_ready (pout (dut (((tick ev) ^^ n) tb))))"
proof
  assume "wait_ready ev tb \<noteq> None"
  then obtain tb' where "wait_ready ev tb = Some tb'" by (cases "wait_ready ev tb") simp_all
  from wait_ready_Some_ticks [OF this] obtain n where
    "tb' = ((tick ev) ^^ n) tb" "in_ready (pout (dut tb'))" by (elim exE conjE)
  then have "in_ready (pout (dut (((tick ev) ^^ n) tb)))" by simp
  then show "\<exists>n. in_ready (pout (dut (((tick ev) ^^ n) tb)))" by (rule exI)
next
  assume "\<exists>n. in_ready (pout (dut (((tick ev) ^^ n) tb)))"
  then obtain n where "in_ready (pout (dut (((tick ev) ^^ n) tb)))" by (elim exE)
  from wait_ready_eventually [OF this] show "wait_ready ev tb \<noteq> None" by (elim exE) simp
qed

lemma tick_dut:
  "dut (tick ev tb) =
     (let p1 = (pin (dut tb))\<lparr>clk := True\<rparr>;
          r1 = ev (sim_time tb) p1 (core (dut tb));
          p2 = p1\<lparr>clk := False\<rparr>;
          r2 = ev (sim_time tb + 5) p2 (fst r1)
      in \<lparr>pin = p2, pout = snd r2, core = fst r2\<rparr>)"
  by (simp add: tick_def half_cycle_def set_pin_def eval_dut_def Let_def split_beta)

lemma shell_tick_in_reset:
  assumes "\<not> rst_n (pin (dut tb))"
  shows "dut (tick (shell_eval cap) tb) =
     \<lparr>pin = (pin (dut tb))\<lparr>clk := False\<rparr>,
      pout = shell_outputs ((pin (dut tb))\<lparr>clk := False\<rparr>) init_core,
      core = init_core\<rparr>"
  using assms by (simp add: tick_dut Let_def shell_eval_def init_core_def)

lemma shell_ticks_in_reset:
  assumes "\<not> rst_n (pin (dut tb))"
  shows "dut (((tick (shell_eval cap)) ^^ Suc n) tb) =
     \<lparr>pin = (pin (dut tb))\<lparr>clk := False\<rparr>,
      pout = shell_outputs ((pin (dut tb))\<lparr>clk := False\<rparr>) init_core,
      core = init_core\<rparr>"
proof (induction n)
  case 0
  show ?case using assms by (simp add: shell_tick_in_reset)
next
  case (Suc n)
  have "dut (((tick (shell_eval cap)) ^^ Suc (Suc n)) tb) =
        dut (tick (shell_eval cap) (((tick (shell_eval cap)) ^^ Suc n) tb))" by simp
  also have "\<dots> = \<lparr>pin = (pin (dut tb))\<lparr>clk := False\<rparr>,
      pout = shell_outputs ((pin (dut tb))\<lparr>clk := False\<rparr>) init_core,
      core = init_core\<rparr>"
    using assms by (subst shell_tick_in_reset) (simp_all only: Suc pins_in.simps shell_dut.simps, simp_all)
  finally show ?case .
qed

lemma shell_ticks_in_reset_pos:
  assumes "\<not> rst_n (pin (dut tb))" and "0 < n"
  shows "dut (((tick (shell_eval cap)) ^^ n) tb) =
     \<lparr>pin = (pin (dut tb))\<lparr>clk := False\<rparr>,
      pout = shell_outputs ((pin (dut tb))\<lparr>clk := False\<rparr>) init_core,
      core = init_core\<rparr>"
proof -
  from assms(2) obtain m where "n = Suc m" by (cases n) simp_all
  then show ?thesis using shell_ticks_in_reset [OF assms(1)] by simp
qed

lemma reset_pins_idle: "(reset_pins p)\<lparr>rst_n := True, clk := False\<rparr> = idle_pins"
  by (simp add: reset_pins_def idle_pins_def)

lemma send_transaction_ready:
  "in_ready (pout (dut tb)) \<Longrightarrow>
   send_transaction ev data opc mt tb =
     Some ((set_pin (\<lambda>p. p\<lparr>in_valid := False\<rparr>)
        (tick ev (set_pin (\<lambda>p. p\<lparr>in_valid := True, in_data := data, in_opcode := opc,
                                in_meta := mt\<rparr>) tb)))
        \<lparr>transactions_sent := transactions_sent tb + 1\<rparr>)"
  by (simp add: send_transaction_def wait_ready_now Let_def)

lemma send_transaction_returns_iff:
  "(send_transaction ev data opc mt tb \<noteq> None) =
   (\<exists>n. in_ready (pout (dut (((tick ev) ^^ n)
      (set_pin (\<lambda>p. p\<lparr>in_valid := True, in_data := data, in_opcode := opc, in_meta := mt\<rparr>) tb)))))"
  unfolding wait_ready_returns_iff [symmetric]
  by (simp add: send_transaction_def Let_def split: option.splits)

lemma stalled_ticks:
  "pout (dut tb) = zero_outputs \<Longrightarrow> pout (dut (((tick stalled_eval) ^^ n) tb)) = zero_outputs"
  by (induction n) (simp_all add: tick_dut Let_def stalled_eval_def)

lemma drain_bounded:
  "\<exists>k \<le> unat max_cycles. snd (drain ev max_cycles tb) = ((drain_body ev) ^^ k) tb"
proof -
  from drain_loop_bounded [of max_cycles ev tb] obtain k where
    "k \<le> unat max_cycles"
    "drain_loop ev max_cycles tb = (max_cycles - of_nat k, ((drain_body ev) ^^ k) tb)"
    by (elim exE conjE)
  then have "k \<le> unat max_cycles \<and> snd (drain ev max_cycles tb) = ((drain_body ev) ^^ k) tb"
    by (simp add: drain_def)
  then show ?thesis by (rule exI)
qed

lemma drain_warns:
  "transactions_received (snd (drain ev max_cycles tb))
     < transactions_sent (snd (drain ev max_cycles tb)) \<Longrightarrow> fst (drain ev max_cycles tb)"
proof -
  assume a: "transactions_received (snd (drain ev max_cycles tb))
     < transactions_sent (snd (drain ev max_cycles tb))"
  obtain t' tb' where e: "drain_loop ev max_cycles tb = (t', tb')"
    by (cases "drain_loop ev max_cycles tb")
  from drain_loop_exit [OF e] a e show ?thesis
    by (simp add: drain_def word_greater_zero_iff)
qed

lemma shell_edge_last_clk [simp]: "last_clk (shell_edge cap p c) = last_clk c"
  by (simp add: shell_edge_def)

lemma shell_edge_clk [simp]: "shell_edge cap (p\<lparr>clk := l\<rparr>) c = shell_edge cap p c"
  by (simp add: shell_edge_def in_hs_def out_hs_def trace_hs_def kept_def dropping_def)

lemma shell_outputs_clk [simp]: "shell_outputs (p\<lparr>clk := l\<rparr>) c = shell_outputs p c"
  by (simp add: shell_outputs_def)

lemma shell_outputs_last_clk [simp]: "shell_outputs p (c\<lparr>last_clk := l\<rparr>) = shell_outputs p c"
  by (simp add: shell_outputs_def)

lemma shell_tick_active:
  assumes "rst_n (pin (dut tb))" and "\<not> last_clk (core (dut tb))"
  shows "dut (tick (shell_eval cap) tb) =
     \<lparr>pin = (pin (dut tb))\<lparr>clk := False\<rparr>,
      pout = shell_outputs (pin (dut tb)) (shell_edge cap (pin (dut tb)) (core (dut tb))),
      core = shell_edge cap (pin (dut tb)) (core (dut tb))\<rparr>"
proof -
  have "(shell_edge cap (pin (dut tb)) (core (dut tb)))\<lparr>last_clk := False\<rparr> =
        shell_edge cap (pin (dut tb)) (core (dut tb))"
    using assms(2) shell_edge_last_clk [of cap "pin (dut tb)" "core (dut tb)"]
    by (simp add: shell_edge_def)
  then show ?thesis
    using assms by (simp add: tick_dut Let_def shell_eval_def)
qed

lemma shell_edge_idle:
  "shell_edge cap idle_pins init_core = ready_core"
  by (simp add: shell_edge_def in_hs_def out_hs_def trace_hs_def kept_def dropping_def
      init_core_def ready_core_def idle_pins_def)

lemma shell_reset_dut:
  "dut (reset (shell_eval cap) tb) =
     \<lparr>pin = idle_pins, pout = shell_outputs idle_pins ready_core, core = ready_core\<rparr>"
proof -
  let ?tb1 = "set_pin reset_pins tb"
  let ?tb2 = "((tick (shell_eval cap)) ^^ 10) ?tb1"
  let ?tb3 = "set_pin (\<lambda>p. p\<lparr>rst_n := True\<rparr>) ?tb2"
  have r: "\<not> rst_n (pin (dut ?tb1))" by (simp add: reset_pins_def)
  have d10: "dut ?tb2 =
     \<lparr>pin = (pin (dut ?tb1))\<lparr>clk := False\<rparr>,
      pout = shell_outputs ((pin (dut ?tb1))\<lparr>clk := False\<rparr>) init_core,
      core = init_core\<rparr>"
    by (rule shell_ticks_in_reset_pos [OF r]) simp
  have p3: "pin (dut ?tb3) = idle_pins"
    by (simp add: d10 reset_pins_def idle_pins_def)
  have c3: "core (dut ?tb3) = init_core" by (simp add: d10)
  have a: "rst_n (pin (dut ?tb3))" by (simp add: p3 idle_pins_def)
  have b: "\<not> last_clk (core (dut ?tb3))" by (simp add: d10 init_core_def)
  have "dut (tick (shell_eval cap) ?tb3) =
     \<lparr>pin = idle_pins\<lparr>clk := False\<rparr>, pout = shell_outputs idle_pins ready_core,
      core = ready_core\<rparr>"
    unfolding shell_tick_active [OF a b] p3 c3 shell_edge_idle ..
  moreover have "idle_pins\<lparr>clk := False\<rparr> = idle_pins" by (simp add: idle_pins_def)
  ultimately show ?thesis by (simp add: reset_def Let_def)
qed

lemma wait_ready_traces:
  "wait_ready ev tb = Some tb' \<Longrightarrow> traces tb' = traces tb"
  using wait_ready_Some_ticks [of ev tb tb'] by auto

lemma send_transaction_traces:
  "send_transaction ev data opc mt tb = Some tb' \<Longrightarrow> traces tb' = traces tb"
  by (auto simp add: send_transaction_def Let_def split: option.splits dest: wait_ready_traces)

lemma drain_body_sent [simp]:
  "transactions_sent (drain_body ev tb) = transactions_sent tb"
  by (simp add: drain_body_def Let_def collect_trace_def)

lemma drain_body_blocked:
  "\<not> out_ready (pin (dut tb)) \<Longrightarrow>
   transactions_received (drain_body ev tb) = transactions_received tb"
  by (simp add: drain_body_def Let_def collect_trace_def)

lemma drain_body_pow_sent [simp]:
  "transactions_sent (((drain_body ev) ^^ k) tb) = transactions_sent tb"
  by (induction k) simp_all

lemma drain_body_pow_blocked:
  "\<not> out_ready (pin (dut tb)) \<Longrightarrow>
   transactions_received (((drain_body ev) ^^ k) tb) = transactions_received tb \<and>
   \<not> out_ready (pin (dut (((drain_body ev) ^^ k) tb)))"
  by (induction k) (simp_all add: drain_body_blocked drain_body_pin)

lemma drain_blocked:
  assumes "\<not> out_ready (pin (dut tb))"
  shows "transactions_received (snd (drain ev m tb)) = transactions_received tb"
    and "transactions_sent (snd (drain ev m tb)) = transactions_sent tb"
proof -
  from drain_bounded [of m ev tb] obtain k where
    k: "snd (drain ev m tb) = ((drain_body ev) ^^ k) tb" by (elim exE conjE)
  show "transactions_received (snd (drain ev m tb)) = transactions_received tb"
    using drain_body_pow_blocked [OF assms, where ev = ev and k = k] k by simp
  show "transactions_sent (snd (drain ev m tb)) = transactions_sent tb"
    using k by simp
qed

lemma collect_trace_fields [simp]:
  "transactions_sent (snd (collect_trace tb)) = transactions_sent tb"
  "transactions_received (snd (collect_trace tb)) = transactions_received tb"
  "cycles_run (snd (collect_trace tb)) = cycles_run tb"
  "num_transactions (snd (collect_trace tb)) = num_transactions tb"
  "random_seed (snd (collect_trace tb)) = random_seed tb"
  "sim_time (snd (collect_trace tb)) = sim_time tb"
  by (simp_all add: collect_trace_def)

lemma shell_outputs_pins [simp]:
  "shell_outputs (p\<lparr>trace_ready := b\<rparr>) c = shell_outputs p c"
  "shell_outputs (p\<lparr>in_valid := b\<rparr>) c = shell_outputs p c"
  "shell_outputs (p\<lparr>in_data := x\<rparr>) c = shell_outputs p c"
  "shell_outputs (p\<lparr>in_opcode := y\<rparr>) c = shell_outputs p c"
  "shell_outputs (p\<lparr>in_meta := z\<rparr>) c = shell_outputs p c"
  by (simp_all add: shell_outputs_def)

lemma pins_record_shell:
  "pins_record (shell_outputs p c) = head_record (fifo c)"
  by (simp add: pins_record_def shell_outputs_def)

lemma shell_tick_core:
  "rst_n (pin (dut tb)) \<Longrightarrow> \<not> last_clk (core (dut tb)) \<Longrightarrow>
   core (dut (tick (shell_eval cap) tb)) = shell_edge cap (pin (dut tb)) (core (dut tb))"
  by (simp add: shell_tick_active)

lemma shell_tick_pout:
  "rst_n (pin (dut tb)) \<Longrightarrow> \<not> last_clk (core (dut tb)) \<Longrightarrow>
   pout (dut (tick (shell_eval cap) tb)) =
     shell_outputs (pin (dut tb)) (shell_edge cap (pin (dut tb)) (core (dut tb)))"
  by (simp add: shell_tick_active)

lemma shell_send_transaction:
  assumes "in_ready (pout (dut tb))" and "rst_n (pin (dut tb))" and "\<not> last_clk (core (dut tb))"
  shows "\<exists>tb'. send_transaction (shell_eval cap) data opc mt tb = Some tb' \<and>
     pin (dut tb') = (pin (dut tb))\<lparr>in_valid := False, in_data := data, in_opcode := opc,
                       in_meta := mt, clk := False\<rparr> \<and>
     core (dut tb') = shell_edge cap ((pin (dut tb))\<lparr>in_valid := True, in_data := data,
                       in_opcode := opc, in_meta := mt\<rparr>) (core (dut tb)) \<and>
     pout (dut tb') = shell_outputs (pin (dut tb)) (core (dut tb')) \<and>
     traces tb' = traces tb \<and>
     transactions_sent tb' = transactions_sent tb + 1 \<and>
     transactions_received tb' = transactions_received tb \<and>
     cycles_run tb' = cycles_run tb + 1 \<and>
     num_transactions tb' = num_transactions tb \<and>
     random_seed tb' = random_seed tb"
  using assms
  by (simp add: send_transaction_ready shell_tick_core shell_tick_pout)

lemma shell_process_cycle:
  assumes "rst_n (pin (dut tb))" and "\<not> last_clk (core (dut tb))"
  shows "pin (dut (process_cycle (shell_eval cap) tb)) =
           (pin (dut tb))\<lparr>trace_ready := True, clk := False\<rparr>"
    and "core (dut (process_cycle (shell_eval cap) tb)) =
           shell_edge cap ((pin (dut tb))\<lparr>trace_ready := True\<rparr>) (core (dut tb))"
    and "pout (dut (process_cycle (shell_eval cap) tb)) =
           shell_outputs (pin (dut tb)) (core (dut (process_cycle (shell_eval cap) tb)))"
    and "transactions_received (process_cycle (shell_eval cap) tb) =
           (if out_valid (pout (dut tb)) \<and> out_ready (pin (dut tb))
            then transactions_received tb + 1 else transactions_received tb)"
    and "transactions_sent (process_cycle (shell_eval cap) tb) = transactions_sent tb"
  using assms
  by (simp_all add: process_cycle_def Let_def collect_output_def shell_tick_core shell_tick_pout)

lemma shell_drain_body:
  assumes "rst_n (pin (dut tb))" and "\<not> last_clk (core (dut tb))"
  shows "core (dut (drain_body (shell_eval cap) tb)) = shell_edge cap (pin (dut tb)) (core (dut tb))"
    and "pout (dut (drain_body (shell_eval cap) tb)) =
           shell_outputs (pin (dut tb)) (core (dut (drain_body (shell_eval cap) tb)))"
    and "transactions_received (drain_body (shell_eval cap) tb) =
           (if out_valid (pout (dut tb)) \<and> out_ready (pin (dut tb))
            then transactions_received tb + 1 else transactions_received tb)"
  using assms
  by (simp_all add: drain_body_def Let_def collect_trace_def shell_tick_core shell_tick_pout)

lemma reset_known_shell: "reset_known (shell_eval cap)"
  by (simp add: reset_known_def shell_reset_dut)

lemma note_output_fields [simp]:
  "dut (note_output tb) = dut tb"
  "transactions_sent (note_output tb) = transactions_sent tb"
  "traces (note_output tb) = traces tb"
  "num_transactions (note_output tb) = num_transactions tb"
  by (simp_all add: note_output_def)

lemma over_inv_note:
  assumes "over_inv cap k tb"
  shows "transactions_received (note_output tb) = of_nat k"
proof (cases k)
  case 0
  with assms show ?thesis by (simp add: over_inv_def note_output_def shell_outputs_def)
next
  case (Suc j)
  with assms show ?thesis by (simp add: over_inv_def note_output_def shell_outputs_def)
qed

lemma over_inv_start:
  "over_inv cap 0 (set_pin (\<lambda>p. p\<lparr>trace_ready := False\<rparr>)
     (reset (shell_eval cap) ((new_shell_tb d)\<lparr>num_transactions := n\<rparr>)))"
  by (simp add: over_inv_def shell_reset_dut idle_pins_def ready_core_def init_core_def
      new_shell_tb_def shell_outputs_def)

lemma over_inv_send:
  assumes "over_inv cap k tb"
  shows "\<exists>tb'. send_transaction (shell_eval cap) data opc mt (note_output tb) = Some tb' \<and>
           over_inv cap (Suc k) tb' \<and> num_transactions tb' = num_transactions tb"
proof -
  let ?n = "note_output tb"
  have l: "in_ready (pout (dut ?n))" "rst_n (pin (dut ?n))" "\<not> last_clk (core (dut ?n))"
    using assms by (simp_all add: over_inv_def shell_outputs_def)
  from shell_send_transaction [OF l, of cap data opc mt] obtain tb' where
    s: "send_transaction (shell_eval cap) data opc mt ?n = Some tb'"
    and p: "pin (dut tb') = (pin (dut tb))\<lparr>in_valid := False, in_data := data, in_opcode := opc,
                       in_meta := mt, clk := False\<rparr>"
    and c: "core (dut tb') = shell_edge cap ((pin (dut tb))\<lparr>in_valid := True, in_data := data,
                       in_opcode := opc, in_meta := mt\<rparr>) (core (dut tb))"
    and o: "pout (dut tb') = shell_outputs (pin (dut tb)) (core (dut tb'))"
    and ts: "transactions_sent tb' = transactions_sent tb + 1"
    and tr: "transactions_received tb' = transactions_received ?n"
    and nt: "num_transactions tb' = num_transactions tb"
    by (elim exE conjE) simp
  have "over_inv cap (Suc k) tb'"
  proof (cases k)
    case 0
    with assms show ?thesis
      unfolding over_inv_def p c o ts tr over_inv_note [OF assms]
      by (simp add: shell_edge_def in_hs_def out_hs_def trace_hs_def kept_def dropping_def
          shell_outputs_def)
  next
    case (Suc j)
    with assms show ?thesis
      unfolding over_inv_def p c o ts tr over_inv_note [OF assms]
      by (auto simp add: shell_edge_def in_hs_def out_hs_def trace_hs_def kept_def dropping_def
          shell_outputs_def min_def Suc_diff_le)
  qed
  with s nt show ?thesis by blast
qed

lemma over_inv_sends:
  "over_inv cap k tb \<Longrightarrow>
   \<exists>tb'. overflow_sends (shell_eval cap) m i tb = Some tb' \<and> over_inv cap (k + m) tb' \<and>
         num_transactions tb' = num_transactions tb"
proof (induction m arbitrary: k i tb)
  case 0
  then show ?case by simp
next
  case (Suc m)
  from over_inv_send [OF Suc.prems] obtain tb1 where
    s: "send_transaction (shell_eval cap) (ucast (word_of_nat i :: 32 word))
          (ucast (and (word_of_nat i :: 32 word) 0xFFFF)) (word_of_nat i) (note_output tb) = Some tb1"
    and i1: "over_inv cap (Suc k) tb1" and n1: "num_transactions tb1 = num_transactions tb"
    by blast
  from Suc.IH [OF i1] obtain tb' where
    "overflow_sends (shell_eval cap) m (Suc i) tb1 = Some tb'" "over_inv cap (Suc k + m) tb'"
    "num_transactions tb' = num_transactions tb1" by blast
  with s n1 have "overflow_sends (shell_eval cap) (Suc m) i tb = Some tb' \<and>
      over_inv cap (k + Suc m) tb' \<and> num_transactions tb' = num_transactions tb" by simp
  then show ?case by blast
qed

lemma ucast_of_unat: "(ucast (N :: 32 word) :: 64 word) = of_nat (unat N)"
  by (simp add: unsigned_of_nat)

lemma unat32_lt: "unat (N :: 32 word) < 2 ^ 32"
  using unsigned_less [of N, where 'a = nat] by simp

lemma of_nat_less64: "j < n \<Longrightarrow> n < 2 ^ 32 \<Longrightarrow> (of_nat j :: 64 word) < of_nat n"
  by (simp add: of_nat_word_less_iff take_bit_nat_eq_self)

lemma of_nat_zero64: "n < 2 ^ 32 \<Longrightarrow> ((of_nat n :: 64 word) = 0) = (n = 0)"
  by (simp add: word_of_nat_eq_0_iff dvd_def) auto

lemma overflow_drain_stop:
  "\<not> transactions_received tb < transactions_sent tb \<Longrightarrow> overflow_drain ev t tb = (t, tb)"
  by (subst overflow_drain.simps) simp

lemma overflow_drain_step:
  "transactions_received tb < transactions_sent tb \<Longrightarrow> 0 < t \<Longrightarrow>
   overflow_drain ev t tb = overflow_drain ev (t - 1) (tick ev (note_output tb))"
  by (subst overflow_drain.simps) simp

lemma over_inv_drain:
  assumes "over_inv cap n tb" and "n < 2 ^ 32"
  shows "done_inv cap n (snd (overflow_drain (shell_eval cap) 10000 tb)) \<and>
         num_transactions (snd (overflow_drain (shell_eval cap) 10000 tb)) = num_transactions tb"
proof (cases n)
  case 0
  with assms(1) have "\<not> transactions_received tb < transactions_sent tb"
    by (simp add: over_inv_def)
  then have "overflow_drain (shell_eval cap) 10000 tb = (10000, tb)"
    by (rule overflow_drain_stop)
  with assms(1) 0 show ?thesis
    by (simp add: done_inv_def over_inv_def shell_outputs_def)
next
  case (Suc j)
  let ?ev = "shell_eval cap"
  let ?t = "tick ?ev (note_output tb)"
  have lt: "transactions_received tb < transactions_sent tb"
    using assms Suc by (simp add: over_inv_def of_nat_less64 del: of_nat_Suc)
  have a: "rst_n (pin (dut (note_output tb)))" "\<not> last_clk (core (dut (note_output tb)))"
    using assms(1) by (simp_all add: over_inv_def)
  have r: "transactions_received ?t = of_nat n"
    using over_inv_note [OF assms(1)] by simp
  have s: "transactions_sent ?t = of_nat n"
    using assms(1) by (simp add: over_inv_def)
  have e1: "overflow_drain ?ev 10000 tb = overflow_drain ?ev 9999 ?t"
    using overflow_drain_step [OF lt, of 10000 ?ev] by simp
  have e2: "overflow_drain ?ev 9999 ?t = (9999, ?t)"
    using assms(1) by (intro overflow_drain_stop) (simp add: over_inv_note [OF assms(1)] over_inv_def)
  have c: "core (dut ?t) = shell_edge cap (pin (dut tb)) (core (dut tb))"
    using shell_tick_core [OF a, of cap] by simp
  have o: "pout (dut ?t) = shell_outputs (pin (dut tb)) (core (dut ?t))"
    using shell_tick_pout [OF a, of cap] c by simp
  have "done_inv cap n ?t"
    using assms(1) Suc
    unfolding done_inv_def r s o c over_inv_def
    by (auto simp add: shell_edge_def in_hs_def out_hs_def trace_hs_def kept_def dropping_def
        shell_outputs_def min_def Suc_diff_le)
  then show ?thesis by (simp add: e1 e2)
qed

lemma overflow_verdict:
  assumes "done_inv cap (unat N) tb" and "num_transactions tb = N"
  shows "(transactions_received tb = ucast (num_transactions tb) \<and>
          trace_drop_count (pout (dut tb)) \<noteq> 0 \<and> trace_overflow_seen (pout (dut tb)))
         = (cap < unat N)"
proof -
  have "unat N - cap < 2 ^ 32" using unat32_lt [of N] by simp
  then have z: "((of_nat (unat N - cap) :: 64 word) = 0) = (unat N - cap = 0)"
    by (rule of_nat_zero64)
  have r: "transactions_received tb = ucast N"
    using assms(1) unfolding done_inv_def ucast_of_unat by (elim conjE)
  have d: "trace_drop_count (pout (dut tb)) = of_nat (unat N - cap)"
    using assms(1) unfolding done_inv_def by (elim conjE)
  have o: "trace_overflow_seen (pout (dut tb)) = (cap < unat N)"
    using assms(1) unfolding done_inv_def by (elim conjE)
  show ?thesis
    unfolding assms(2) r d o z by auto
qed

lemma test_overflow_shell:
  "\<exists>tb'. test_overflow (shell_eval cap) ((new_shell_tb d)\<lparr>num_transactions := N\<rparr>)
            = Some (if cap < unat N then 0 else 1, tb') \<and> done_inv cap (unat N) tb'"
proof -
  let ?ev = "shell_eval cap"
  let ?tb0 = "(new_shell_tb d)\<lparr>num_transactions := N\<rparr>"
  let ?tb1 = "set_pin (\<lambda>p. p\<lparr>trace_ready := False\<rparr>) (reset ?ev ?tb0)"
  have n1: "num_transactions ?tb1 = N" by simp
  have st: "over_inv cap 0 ?tb1" by (rule over_inv_start)
  from over_inv_sends [OF st, where m = "unat N" and i = 0] obtain tb2 where
    s: "overflow_sends ?ev (unat N) 0 ?tb1 = Some tb2"
    and i2': "over_inv cap (0 + unat N) tb2" and n2': "num_transactions tb2 = num_transactions ?tb1"
    by (elim exE conjE)
  have i2: "over_inv cap (unat N) tb2" using i2' by simp
  have n2: "num_transactions tb2 = N" using n2' n1 by simp
  let ?tb3 = "snd (overflow_drain ?ev 10000 tb2)"
  from over_inv_drain [OF i2 unat32_lt] have d3: "done_inv cap (unat N) ?tb3"
    and n3: "num_transactions ?tb3 = N" by (simp_all add: n2)
  note p = overflow_verdict [OF d3 n3]
  have "test_overflow ?ev ?tb0 = Some (if cap < unat N then 0 else 1, ?tb3)"
    unfolding test_overflow_def Let_def n1 s option.case p by (rule refl)
  with d3 show ?thesis by blast
qed

subsection \<open>Runs on the shell that stamps with the simulated time\<close>



lemma stamp_edge_last_clk [simp]: "last_clk (stamp_edge cap t p c) = last_clk c"
  by (simp add: stamp_edge_def)

lemma stamp_edge_clk [simp]: "stamp_edge cap t (p\<lparr>clk := l\<rparr>) c = stamp_edge cap t p c"
  by (simp add: stamp_edge_def)


















section \<open>Claims about the shell driver\<close>

text \<open>
  Claim C4, as the code has it. The loop of \<open>drain\<close> is bounded by its cycle budget: for
  every device it ends after at most \<open>max_cycles\<close> iterations, and when it gives up with
  transactions outstanding it reports the timeout. The wait for input-ready in
  \<open>send_transaction\<close> has no budget: the call returns exactly when the device asserts
  input-ready after finitely many ticks.
\<close>

theorem drain_bounded_send_unbounded:
  "(\<exists>k \<le> unat max_cycles. snd (drain ev max_cycles tb) = ((drain_body ev) ^^ k) tb) \<and>
   (transactions_received (snd (drain ev max_cycles tb))
      < transactions_sent (snd (drain ev max_cycles tb)) \<longrightarrow> fst (drain ev max_cycles tb)) \<and>
   ((send_transaction ev data opc mt tb \<noteq> None) =
    (\<exists>n. in_ready (pout (dut (((tick ev) ^^ n)
      (set_pin (\<lambda>p. p\<lparr>in_valid := True, in_data := data, in_opcode := opc, in_meta := mt\<rparr>) tb))))))"
  using drain_bounded [of max_cycles ev tb] drain_warns [of ev max_cycles tb]
    send_transaction_returns_iff [of ev data opc mt tb]
  by (intro conjI impI) assumption+

theorem drain_bounded_send_unbounded_witness:
  "(case send_transaction (shell_eval 4) 7 0 0 blocked_tb of
      None \<Rightarrow> False
    | Some tb \<Rightarrow>
        transactions_received (snd (drain (shell_eval 4) 3 tb))
          < transactions_sent (snd (drain (shell_eval 4) 3 tb)) \<and>
        fst (drain (shell_eval 4) 3 tb))"
proof -
  let ?ev = "shell_eval 4"
  let ?tb = "(set_pin (\<lambda>p. p\<lparr>in_valid := False\<rparr>)
        (tick ?ev (set_pin (\<lambda>p. p\<lparr>in_valid := True, in_data := 7, in_opcode := 0,
                                in_meta := 0\<rparr>) blocked_tb)))
        \<lparr>transactions_sent := transactions_sent blocked_tb + 1\<rparr>"
  have "in_ready (pout (dut blocked_tb))"
    by (simp add: blocked_tb_def shell_reset_dut shell_outputs_def ready_core_def init_core_def)
  then have s: "send_transaction ?ev 7 0 0 blocked_tb = Some ?tb"
    by (rule send_transaction_ready)
  have nr: "\<not> out_ready (pin (dut ?tb))"
    by (simp add: blocked_tb_def shell_reset_dut)
  have lt: "transactions_received (snd (drain ?ev 3 ?tb)) < transactions_sent (snd (drain ?ev 3 ?tb))"
    unfolding drain_blocked [OF nr]
    by (simp add: blocked_tb_def new_shell_tb_def)
  show ?thesis
    using drain_bounded_send_unbounded [where max_cycles = 3 and ev = ?ev and tb = ?tb] lt
    by (simp add: s)
qed

text \<open>
  Claim C4 as stated fails: with a device that never asserts input-ready,
  \<open>send_transaction\<close> never returns.
\<close>

theorem send_transaction_never_returns_when_stalled:
  "send_transaction stalled_eval 0 0 0 (new_shell_tb stalled_dut) = None"
proof -
  let ?tb = "set_pin (\<lambda>p. p\<lparr>in_valid := True, in_data := 0, in_opcode := 0, in_meta := 0\<rparr>)
               (new_shell_tb stalled_dut)"
  have "pout (dut ?tb) = zero_outputs" by (simp add: new_shell_tb_def stalled_dut_def)
  then have "\<And>n. \<not> in_ready (pout (dut (((tick stalled_eval) ^^ n) ?tb)))"
    by (simp add: stalled_ticks zero_outputs_def)
  then show ?thesis
    using send_transaction_returns_iff [of stalled_eval 0 0 0 "new_shell_tb stalled_dut"]
    by simp
qed

text \<open>
  Claim C5, as the code has it. \<open>reset()\<close> drives the input pins to their defaults and
  releases the reset after ten cycles plus one; it leaves \<open>transactions_sent\<close>,
  \<open>transactions_received\<close> and the collected traces as they were and adds 11 to
  \<open>cycles_run\<close>. In the risk gate driver it leaves the order counters and the static
  \<open>order_id\<close> as they were, and every \<open>send_order\<close> adds one to \<open>order_id\<close>.
\<close>

theorem reset_leaves_harness_counters:
  "transactions_sent (reset ev tb) = transactions_sent tb \<and>
   transactions_received (reset ev tb) = transactions_received tb \<and>
   traces (reset ev tb) = traces tb \<and>
   cycles_run (reset ev tb) = cycles_run tb + 11 \<and>
   pin (dut (reset ev tb)) = idle_pins \<and>
   order_id (risk_reset gev gtb) = order_id gtb \<and>
   orders_sent (risk_reset gev gtb) = orders_sent gtb \<and>
   orders_passed (risk_reset gev gtb) = orders_passed gtb \<and>
   orders_rejected (risk_reset gev gtb) = orders_rejected gtb \<and>
   order_id (snd (send_order gev s t q p n gtb)) = order_id gtb + 1"
  by (simp add: reset_pin reset_pins_idle send_order_order_id)

text \<open>
  Claim C5 as stated fails: after \<open>reset()\<close> on a new testbench \<open>cycles_run\<close> is 11,
  after a transaction and a second \<open>reset()\<close> \<open>transactions_sent\<close> is still 1, and after
  an order and a second reset of the risk gate driver \<open>order_id\<close> is still 1.
\<close>

theorem reset_does_not_zero_counters:
  "cycles_run (reset (shell_eval 4) (new_shell_tb new_shell_dut)) = 11 \<and>
   map_option (\<lambda>tb. transactions_sent (reset (shell_eval 4) tb))
     (send_transaction (shell_eval 4) 7 0 0 (reset (shell_eval 4) (new_shell_tb new_shell_dut)))
     = Some 1 \<and>
   order_id (risk_reset open_gate_eval
     (snd (send_order open_gate_eval SIDE_BUY ORDER_NEW 100 100 10000
        (risk_reset open_gate_eval (new_risk_tb open_gate_dut))))) = 1"
proof -
  have "in_ready (pout (dut (reset (shell_eval 4) (new_shell_tb new_shell_dut))))"
    by (simp add: shell_reset_dut shell_outputs_def ready_core_def init_core_def)
  then show ?thesis
    by (simp add: send_transaction_ready send_order_order_id new_shell_tb_def new_risk_tb_def)
qed

text \<open>
  Claim C6. A record is appended to the collected traces only in a cycle of \<open>process_cycle\<close>
  or of the loop of \<open>drain\<close>, and there exactly when after the tick the device asserts
  trace-valid while the harness asserts trace-ready (\<open>process_cycle\<close> asserts it itself).
  With trace-ready low a cycle of \<open>drain\<close> appends nothing, even if trace-valid is high.
  \<open>tick\<close>, \<open>reset\<close>, \<open>collect_output\<close> and \<open>send_transaction\<close> never append.
\<close>

theorem trace_captured_only_when_valid_and_ready:
  "traces (process_cycle ev tb) = traces tb @ captured (dut (process_cycle ev tb)) \<and>
   trace_ready (pin (dut (process_cycle ev tb))) \<and>
   traces (drain_body ev tb) = traces tb @ captured (dut (drain_body ev tb)) \<and>
   (\<not> trace_ready (pin (dut tb)) \<longrightarrow> traces (drain_body ev tb) = traces tb) \<and>
   traces (tick ev tb) = traces tb \<and>
   traces (reset ev tb) = traces tb \<and>
   traces (snd (collect_output tb)) = traces tb \<and>
   (send_transaction ev data opc mt tb = Some tb' \<longrightarrow> traces tb' = traces tb)"
  using drain_body_traces [of ev tb] drain_body_pin [of ev tb]
  by (simp add: process_cycle_traces process_cycle_trace_ready send_transaction_traces
      captured_def)

theorem trace_captured_only_when_valid_and_ready_witness:
  "(case send_transaction (shell_eval 4) 7 1 2 (reset (shell_eval 4) (new_shell_tb new_shell_dut)) of
      None \<Rightarrow> False
    | Some tb \<Rightarrow>
        traces tb = [] \<and>
        \<not> trace_ready (pin (dut (set_pin (\<lambda>p. p\<lparr>trace_ready := False\<rparr>) tb))) \<and>
        trace_valid (pout (dut (drain_body (shell_eval 4)
           (set_pin (\<lambda>p. p\<lparr>trace_ready := False\<rparr>) tb)))) \<and>
        traces (drain_body (shell_eval 4) (set_pin (\<lambda>p. p\<lparr>trace_ready := False\<rparr>) tb)) = [] \<and>
        traces (process_cycle (shell_eval 4) tb) =
          [\<lparr>tx_id = 0, t_ingress = 1, t_egress = 2, flags = 0, opcode = 1, meta = 2\<rparr>])"
proof -
  let ?ev = "shell_eval 4"
  let ?r = "reset ?ev (new_shell_tb new_shell_dut)"
  let ?rec = "\<lparr>tx_id = 0, t_ingress = 1, t_egress = 2, flags = 0, opcode = 1, meta = 2\<rparr>"
  have r: "in_ready (pout (dut ?r))" "rst_n (pin (dut ?r))" "\<not> last_clk (core (dut ?r))"
    by (simp_all add: shell_reset_dut shell_outputs_def ready_core_def init_core_def idle_pins_def)
  from shell_send_transaction [OF r, of 4 7 1 2] obtain tb where
    s: "send_transaction ?ev 7 1 2 ?r = Some tb"
    and p: "pin (dut tb) = (pin (dut ?r))\<lparr>in_valid := False, in_data := 7, in_opcode := 1,
                       in_meta := 2, clk := False\<rparr>"
    and c: "core (dut tb) = shell_edge 4 ((pin (dut ?r))\<lparr>in_valid := True, in_data := 7,
                       in_opcode := 1, in_meta := 2\<rparr>) (core (dut ?r))"
    and t: "traces tb = traces ?r"
    by (elim exE conjE)
  have t0: "traces tb = []" by (simp add: t new_shell_tb_def)
  have p': "pin (dut tb) = idle_pins\<lparr>in_data := 7, in_opcode := 1, in_meta := 2\<rparr>"
    by (simp add: p shell_reset_dut idle_pins_def)
  have c': "core (dut tb) = ready_core\<lparr>stage := Some (0, 1, 1, 2), next_tx_id := 1, cycle_count := 2\<rparr>"
    by (simp add: c shell_reset_dut shell_edge_def in_hs_def out_hs_def trace_hs_def kept_def
        dropping_def idle_pins_def ready_core_def init_core_def)
  have a: "rst_n (pin (dut tb))" "\<not> last_clk (core (dut tb))"
    by (simp_all add: p' c' idle_pins_def ready_core_def init_core_def)
  let ?w = "set_pin (\<lambda>p. p\<lparr>trace_ready := False\<rparr>) tb"
  have aw: "rst_n (pin (dut ?w))" "\<not> last_clk (core (dut ?w))"
    using a by simp_all
  have w1: "\<not> trace_ready (pin (dut ?w))" by simp
  have fw: "fifo (core (dut (drain_body ?ev ?w))) = [?rec]"
    by (simp add: shell_drain_body(1) [OF aw] p' c' shell_edge_def in_hs_def out_hs_def
        trace_hs_def kept_def dropping_def idle_pins_def ready_core_def init_core_def
        completed_record_def)
  have w2: "trace_valid (pout (dut (drain_body ?ev ?w)))"
    by (simp add: shell_drain_body(2) [OF aw] fw shell_outputs_def)
  have w3: "traces (drain_body ?ev ?w) = []"
    using trace_captured_only_when_valid_and_ready
      [of ?ev ?w, THEN conjunct2, THEN conjunct2, THEN conjunct2, THEN conjunct1] w1 t0
    by simp
  have fp: "fifo (core (dut (process_cycle ?ev tb))) = [?rec]"
    by (simp add: shell_process_cycle(2) [OF a] p' c' shell_edge_def in_hs_def out_hs_def
        trace_hs_def kept_def dropping_def idle_pins_def ready_core_def init_core_def
        completed_record_def)
  have w4: "traces (process_cycle ?ev tb) = [?rec]"
    using trace_captured_only_when_valid_and_ready [of ?ev tb, THEN conjunct1] t0
    by (simp add: captured_def shell_process_cycle(1,3) [OF a] fp shell_outputs_def
        pins_record_def head_record_def)
  show ?thesis
    unfolding s using t0 w1 w2 w3 w4 by simp
qed


text \<open>
  Claim C2, on the pass-through shell with a trace buffer of \<open>cap\<close> records. With
  trace-ready held low from the reset to the end of \<open>test_overflow\<close>, the run returns and
  every submitted transaction has been received (\<open>transactions_received\<close> has reached
  \<open>transactions_sent\<close>, which is \<open>num_transactions\<close>). At the end \<open>trace_drop_count > 0\<close>
  and \<open>trace_overflow_seen\<close> hold exactly when more transactions were submitted than the
  buffer holds, and exactly then the test passes.
\<close>

theorem trace_starvation_no_deadlock:
  "\<exists>v tb'. test_overflow (shell_eval cap) ((new_shell_tb d)\<lparr>num_transactions := N\<rparr>) = Some (v, tb') \<and>
     \<not> trace_ready (pin (dut tb')) \<and>
     transactions_sent tb' = ucast N \<and>
     transactions_received tb' = transactions_sent tb' \<and>
     (0 < trace_drop_count (pout (dut tb'))) = (cap < unat N) \<and>
     trace_overflow_seen (pout (dut tb')) = (cap < unat N) \<and>
     (v = 0) = (cap < unat N)"
proof -
  from test_overflow_shell [where cap = cap and d = d and N = N] obtain tb' where
    t: "test_overflow (shell_eval cap) ((new_shell_tb d)\<lparr>num_transactions := N\<rparr>)
          = Some (if cap < unat N then 0 else 1, tb')"
    and d: "done_inv cap (unat N) tb'" by (elim exE conjE)
  have "unat N - cap < 2 ^ 32" using unat32_lt [of N] by simp
  then have z: "((of_nat (unat N - cap) :: 64 word) = 0) = (unat N - cap = 0)"
    by (rule of_nat_zero64)
  have r: "transactions_received tb' = ucast N"
    using d unfolding done_inv_def ucast_of_unat by (elim conjE)
  have r2: "transactions_sent tb' = ucast N"
    using d unfolding done_inv_def ucast_of_unat by (elim conjE)
  have tr: "\<not> trace_ready (pin (dut tb'))"
    using d unfolding done_inv_def by (elim conjE)
  have dc: "trace_drop_count (pout (dut tb')) = of_nat (unat N - cap)"
    using d unfolding done_inv_def by (elim conjE)
  have o: "trace_overflow_seen (pout (dut tb')) = (cap < unat N)"
    using d unfolding done_inv_def by (elim conjE)
  have dz: "(0 < trace_drop_count (pout (dut tb'))) = (cap < unat N)"
    unfolding dc word_greater_zero_iff z by auto
  let ?v = "if cap < unat N then 0 else (1::int)"
  have "test_overflow (shell_eval cap) ((new_shell_tb d)\<lparr>num_transactions := N\<rparr>) = Some (?v, tb') \<and>
     \<not> trace_ready (pin (dut tb')) \<and>
     transactions_sent tb' = ucast N \<and>
     transactions_received tb' = transactions_sent tb' \<and>
     (0 < trace_drop_count (pout (dut tb'))) = (cap < unat N) \<and>
     trace_overflow_seen (pout (dut tb')) = (cap < unat N) \<and>
     (?v = 0) = (cap < unat N)"
    using t tr r r2 dz o by simp
  then show ?thesis by blast
qed

text \<open>
  Claim C2 as stated fails: a run of one transaction with trace-ready held low receives
  the transaction, but its record fits into a buffer of four records, so the drop counter
  is 0, the overflow flag is clear and the test reports failure.
\<close>

theorem one_transaction_no_drop:
  "map_option (\<lambda>(v, tb'). (v, transactions_sent tb', transactions_received tb',
       trace_drop_count (pout (dut tb')), trace_overflow_seen (pout (dut tb'))))
     (test_overflow (shell_eval 4) ((new_shell_tb new_shell_dut)\<lparr>num_transactions := 1\<rparr>))
   = Some (1, 1, 1, 0, False)"
proof -
  from test_overflow_shell [where cap = 4 and d = new_shell_dut and N = 1] obtain tb' where
    t: "test_overflow (shell_eval 4) ((new_shell_tb new_shell_dut)\<lparr>num_transactions := 1\<rparr>)
          = Some (1, tb')"
    and d: "done_inv 4 (unat (1 :: 32 word)) tb'" by (elim exE conjE) simp
  show ?thesis
    using d unfolding t by (simp add: done_inv_def)
qed

end
